theory Spec2Isabelle
  imports Main "HOL-Library.AList"
begin

section \<open>Data model of the connection runtime\<close>

text \<open>
  The development embeds \<^verbatim>\<open>packages/tsrpc-base/src/base/BaseConnection.ts\<close> (the current
  connection class, statuses Connecting/Connected/Disconnecting/Disconnected) and, in a
  separate section, the earlier revision of the same class that the repository still holds
  (statuses Opening/Opened/Closing/Closed, with \<^verbatim>\<open>implementApi\<close>).

  Every \<^verbatim>\<open>async\<close> method is cut at its \<^verbatim>\<open>await\<close>s: one HOL function per synchronous
  segment. What a segment does to the outside (logger, flows, codec hooks, the transport's
  \<^verbatim>\<open>_sendData\<close> and \<^verbatim>\<open>_doDisconnect\<close>, resolving a promise) is appended to the \<open>trace\<close>
  field of the state, in program order.
\<close>

datatype js_error = Error string

datatype ConnectionStatus = Connecting | Connected | Disconnecting | Disconnected

datatype Side = Server | Client

text \<open>\<^verbatim>\<open>BaseConnectionDataType = 'text' | 'buffer'\<close>.\<close>

datatype BaseConnectionDataType = DataText | DataBuffer

datatype TsrpcErrorType =
  ApiError | NetworkError | ServerError | ClientError | RemoteError | LocalError

text \<open>\<^verbatim>\<open>new TsrpcError(message, {type, code})\<close>: message, type, optional code.\<close>

datatype TsrpcError = TsrpcError string TsrpcErrorType "string option"

text \<open>Request, response and message bodies are opaque values.\<close>

type_synonym json = string

text \<open>\<^verbatim>\<open>{isSucc: true, res}\<close> or \<^verbatim>\<open>{isSucc: false, err}\<close>.\<close>

datatype ApiReturn = ApiSucc json | ApiFail TsrpcError

text \<open>\<^verbatim>\<open>OpResultVoid\<close>: \<^verbatim>\<open>{isSucc: true}\<close> or \<^verbatim>\<open>{isSucc: false, errMsg}\<close>.\<close>

datatype OpResultVoid = OpSucc | OpFail string

text \<open>
  What the promise of an \<^verbatim>\<open>async\<close> method is after one synchronous segment: resolved
  with a value, the shared never-settling \<^verbatim>\<open>PROMISE_ABORTED\<close>, or still waiting at the
  method's next \<^verbatim>\<open>await\<close>.
\<close>

datatype 'a async = Done 'a | Aborted | Await

record ProtoInfo =
  md5 :: string
  lastModified :: int

text \<open>
  The tagged union \<^verbatim>\<open>TransportData\<close>, with the fields the connection reads:
  req (serviceName, sn, body, protoInfo?), res (serviceName?, sn, body, protoInfo?),
  err (sn, err, protoInfo?), msg (serviceName, body), heartbeat (sn, isReply?), custom.
\<close>

datatype TransportData =
    TdReq string nat json "ProtoInfo option"
  | TdRes "string option" nat json "ProtoInfo option"
  | TdErr nat TsrpcError "ProtoInfo option"
  | TdMsg string json
  | TdHeartbeat nat "bool option"
  | TdCustom json

text \<open>Raw frames are \<^verbatim>\<open>string | Uint8Array\<close>.\<close>

datatype RawData = RawText string | RawBuffer "nat list"

datatype BoxType = BoxReq | BoxRes | BoxErr | BoxMsg | BoxHeartbeat | BoxCustom

text \<open>A box (body already encoded, or not yet decoded): the fields \<^verbatim>\<open>_recvBox\<close> reads.\<close>

record Box =
  boxType :: BoxType
  boxSn :: nat
  boxProtoInfo :: "ProtoInfo option"
  boxBody :: string

datatype ErrPhase = PhaseValidate | PhaseOther

text \<open>
  \<^verbatim>\<open>TransportDataUtil\<close>, the service map and the tsbuffer instance are collaborators:
  the codec functions are parameters of the model. An encoder returns \<open>Inl errMsg\<close> or
  \<open>Inr result\<close>; a decoder returns \<open>Inl (errMsg, errPhase)\<close> or \<open>Inr result\<close>. The
  decoders of a box also receive the pending calls, as the pairs (sn, apiName).
  \<open>errConnNotConnected\<close> is the message of the abstract \<^verbatim>\<open>_errConnNotConnected()\<close>,
  whose result type is \<^verbatim>\<open>OpResultVoid & { isSucc: false }\<close>.
\<close>

record Codec =
  encodeBodyText :: "TransportData \<Rightarrow> bool \<Rightarrow> string + Box"
  encodeBodyBuffer :: "TransportData \<Rightarrow> bool \<Rightarrow> string + Box"
  encodeBoxText :: "Box \<Rightarrow> bool option \<Rightarrow> string + RawData"
  encodeBoxBuffer :: "Box \<Rightarrow> bool option \<Rightarrow> string + RawData"
  decodeBoxText :: "string \<Rightarrow> (nat \<times> string) list \<Rightarrow> bool \<Rightarrow> (string \<times> ErrPhase) + Box"
  decodeBoxBuffer :: "nat list \<Rightarrow> (nat \<times> string) list \<Rightarrow> bool \<Rightarrow> (string \<times> ErrPhase) + Box"
  decodeBodyText :: "Box \<Rightarrow> bool \<Rightarrow> (string \<times> ErrPhase) + TransportData"
  decodeBodyBuffer :: "Box \<Rightarrow> bool \<Rightarrow> (string \<times> ErrPhase) + TransportData"
  errConnNotConnected :: string

datatype FlowName =
    PostConnectFlow | PostDisconnectFlow | PreCallApiFlow | PreCallApiReturnFlow
  | PreRecvMsgFlow | PreSendDataFlow | PostSendDataFlow | PreRecvDataFlow

datatype LogLevel = LDebug | LInfo | LWarn | LError | LLog

text \<open>
  The trace. \<open>OnReturn a ret\<close>: the \<^verbatim>\<open>onReturn\<close> listener of the pending item at heap
  address \<open>a\<close> ran with \<open>ret\<close> (and resolved the promise of \<^verbatim>\<open>_waitApiReturn\<close>).
  \<open>TimeoutReturn a ret\<close>: the timer of \<^verbatim>\<open>_waitApiReturn\<close> resolved that promise.
  \<open>SendData\<close>: the transport's \<^verbatim>\<open>_sendData\<close> was called. \<open>Log\<close> keeps the level and the
  fixed tag of the line.
\<close>

datatype Event =
    FlowExec FlowName
  | Log LogLevel string
  | OnReturn nat ApiReturn
  | TimeoutReturn nat ApiReturn
  | OnAbort nat
  | EncodeBody BaseConnectionDataType TransportData
  | EncodeBox BaseConnectionDataType Box
  | DecodeBox RawData
  | DecodeBody BaseConnectionDataType Box
  | SendData RawData TransportData
  | DoDisconnect bool "string option"
  | ApiCallExecute string nat json "ProtoInfo option"
  | EmitMsg string json
  | RecvCustom json

subsection \<open>Counter\<close>

text \<open>
  Modelled from the spec: the class \<^verbatim>\<open>Counter\<close> (\<^verbatim>\<open>models/Counter\<close>) is not among the
  sources. The specification says: it returns successive positive integers starting at 1;
  \<^verbatim>\<open>getNext()\<close> increments and returns; \<^verbatim>\<open>getNext(peek=true)\<close> returns without advancing;
  when the value would exceed a ceiling (at least 2^31 - 1) it resets to 1. \<open>counterLast\<close>
  is the value issued last (0 before the first), \<open>counterMax\<close> the ceiling.
\<close>

record Counter =
  counterMax :: nat
  counterLast :: nat

definition newCounter :: "nat \<Rightarrow> Counter" where
  "newCounter ceiling = \<lparr>counterMax = ceiling, counterLast = 0\<rparr>"

definition getNext :: "bool \<Rightarrow> Counter \<Rightarrow> nat \<times> Counter" where
  "getNext peek c =
     (let n = (if counterLast c + 1 > counterMax c then 1 else counterLast c + 1)
      in (n, if peek then c else c\<lparr>counterLast := n\<rparr>))"

subsection \<open>Options, pending calls and the connection state\<close>

record BaseConnectionOptions =
  logConnect :: bool
  logApi :: bool
  logMsg :: bool
  logReqBody :: bool
  logResBody :: bool
  debugBuf :: bool
  callApiTimeout :: int
  apiCallTimeout :: int
  returnInnerError :: bool
  skipEncodeValidate :: bool
  skipDecodeValidate :: bool
  heartbeat :: bool
  heartbeatSendInterval :: int
  heartbeatRecvTimeout :: int

text \<open>
  The per-call \<^verbatim>\<open>TransportOptions\<close> as the connection reads them. \<open>optAbortSignal\<close> says
  whether an \<^verbatim>\<open>abortSignal\<close> was passed; its listener calls \<^verbatim>\<open>abort(sn)\<close>.
\<close>

record TransportOptions =
  optTimeout :: "int option"
  optAbortKey :: "string option"
  optAbortSignal :: bool
  optDataType :: "BaseConnectionDataType option"

text \<open>
  \<^verbatim>\<open>PendingCallApiItem\<close>. \<open>onReturn\<close> and \<open>onAbort\<close> say whether the listener is set; the
  only listener ever stored in \<^verbatim>\<open>onReturn\<close> is the closure of \<^verbatim>\<open>_waitApiReturn\<close> for this
  very item. \<open>timer\<close> is the variable \<^verbatim>\<open>timer\<close> of that closure: the duration of the armed
  timeout, or \<open>None\<close>.
\<close>

record PendingCallApiItem =
  sn :: nat
  apiName :: string
  req :: json
  isAborted :: bool
  abortKey :: "string option"
  abortSignal :: bool
  onAbort :: bool
  onReturn :: bool
  timer :: "int option"

text \<open>\<^verbatim>\<open>_heartbeat\<close>: the counter, the two timer handles (armed duration), the last send time.\<close>

record HeartbeatState =
  hbSn :: Counter
  sendTimer :: "int option"
  recvTimeout :: "int option"
  lastSendTime :: int

text \<open>
  The connection. Pending items are objects: \<open>heap\<close> holds every item ever created, by
  allocation index, and \<open>pendingCallApis\<close> is the insertion-ordered
  \<^verbatim>\<open>Map<number, PendingCallApiItem>\<close> from sn to the item's address. An item removed from the
  map stays in the heap, where the continuation of its \<^verbatim>\<open>callApi\<close> still reads it.
  \<open>disconnecting\<close> says whether the promise \<^verbatim>\<open>_disconnecting\<close> is set; \<open>heartbeatState\<close> is
  the field \<^verbatim>\<open>_heartbeat\<close>; \<open>hasRecvCustom\<close> and \<open>hasEmitMsg\<close> say whether the optional hooks
  \<^verbatim>\<open>_recvCustom\<close> and \<^verbatim>\<open>_emitMsg\<close> are set.
\<close>

record conn =
  side :: Side
  dataType :: BaseConnectionDataType
  options :: BaseConnectionOptions
  localProtoInfo :: ProtoInfo
  remoteProtoInfo :: "ProtoInfo option"
  status :: ConnectionStatus
  disconnecting :: bool
  callApiSn :: Counter
  heap :: "PendingCallApiItem list"
  pendingCallApis :: "(nat \<times> nat) list"
  heartbeatState :: "HeartbeatState option"
  lastHeartbeatLatency :: int
  encodeSkipSN :: "bool option"
  hasRecvCustom :: bool
  hasEmitMsg :: bool
  trace :: "Event list"

definition emit :: "Event \<Rightarrow> conn \<Rightarrow> conn" where
  "emit e s = s\<lparr>trace := trace s @ [e]\<rparr>"

definition logIf :: "bool \<Rightarrow> LogLevel \<Rightarrow> string \<Rightarrow> conn \<Rightarrow> conn" where
  "logIf b lvl tag s = (if b then emit (Log lvl tag) s else s)"

text \<open>Dereferencing an address; an address that was never allocated denotes no object.\<close>

definition itemAt :: "conn \<Rightarrow> nat \<Rightarrow> PendingCallApiItem option" where
  "itemAt s a = (if a < length (heap s) then Some (heap s ! a) else None)"

definition setItem :: "nat \<Rightarrow> PendingCallApiItem \<Rightarrow> conn \<Rightarrow> conn" where
  "setItem a item s = s\<lparr>heap := (heap s)[a := item]\<rparr>"

definition deletePending :: "nat \<Rightarrow> conn \<Rightarrow> conn" where
  "deletePending k s = s\<lparr>pendingCallApis := AList.delete k (pendingCallApis s)\<rparr>"

text \<open>
  \<^verbatim>\<open>Map.prototype.forEach\<close> over \<^verbatim>\<open>_pendingCallApis\<close> with a callback that may delete
  entries: the keys are visited in insertion order, and a key deleted before its turn is
  skipped. The callback receives the item (its address).
\<close>

fun forEachKey :: "(nat \<Rightarrow> conn \<Rightarrow> conn) \<Rightarrow> nat list \<Rightarrow> conn \<Rightarrow> conn" where
  "forEachKey f [] s = s"
| "forEachKey f (k # ks) s =
     forEachKey f ks (case map_of (pendingCallApis s) k of None \<Rightarrow> s | Some a \<Rightarrow> f a s)"

definition forEachPending :: "(nat \<Rightarrow> conn \<Rightarrow> conn) \<Rightarrow> conn \<Rightarrow> conn" where
  "forEachPending f s = forEachKey f (map fst (pendingCallApis s)) s"

subsection \<open>Waiting for, receiving and aborting a return\<close>

text \<open>
  \<^verbatim>\<open>_waitApiReturn(pendingItem, timeout)\<close>: arms the timer when \<^verbatim>\<open>timeout\<close> is truthy (not 0)
  and installs \<^verbatim>\<open>onReturn\<close>.
\<close>

definition waitApiReturn :: "nat \<Rightarrow> int \<Rightarrow> conn \<Rightarrow> conn" where
  "waitApiReturn a timeout s =
     (case itemAt s a of
        None \<Rightarrow> s
      | Some pendingItem \<Rightarrow>
          setItem a (pendingItem\<lparr>onReturn := True,
                                timer := (if timeout \<noteq> 0 then Some timeout else None)\<rparr>) s)"

definition timeoutError :: TsrpcError where
  "timeoutError = TsrpcError ''Request Timeout'' NetworkError (Some ''TIMEOUT'')"

text \<open>
  The timer callback of \<^verbatim>\<open>_waitApiReturn\<close>. It can run only while the timer is armed: a
  timer cleared by \<^verbatim>\<open>clearTimeout\<close> never fires.
\<close>

definition waitTimerFire :: "nat \<Rightarrow> conn \<Rightarrow> conn" where
  "waitTimerFire a s =
     (case itemAt s a of
        None \<Rightarrow> s
      | Some pendingItem \<Rightarrow>
          if timer pendingItem = None then s
          else emit (TimeoutReturn a (ApiFail timeoutError))
                 (deletePending (sn pendingItem) (setItem a (pendingItem\<lparr>timer := None\<rparr>) s)))"

text \<open>
  \<^verbatim>\<open>item.onReturn?.(ret)\<close>: nothing when no listener is set; otherwise the closure of
  \<^verbatim>\<open>_waitApiReturn\<close> clears the timer, deletes the entry of \<^verbatim>\<open>pendingItem.sn\<close> and resolves.
\<close>

definition invokeOnReturn :: "ApiReturn \<Rightarrow> nat \<Rightarrow> conn \<Rightarrow> conn" where
  "invokeOnReturn ret a s =
     (case itemAt s a of
        None \<Rightarrow> s
      | Some pendingItem \<Rightarrow>
          if \<not> onReturn pendingItem then s
          else emit (OnReturn a ret)
                 (deletePending (sn pendingItem) (setItem a (pendingItem\<lparr>timer := None\<rparr>) s)))"

text \<open>\<^verbatim>\<open>abort(sn)\<close>.\<close>

definition abort :: "nat \<Rightarrow> conn \<Rightarrow> conn" where
  "abort k s =
     (case map_of (pendingCallApis s) k of
        None \<Rightarrow> s
      | Some a \<Rightarrow>
          (let s1 = logIf (logApi (options s)) LInfo ''[callApi] [Abort]'' (deletePending k s)
           in case itemAt s1 a of
                None \<Rightarrow> s1
              | Some pendingItem \<Rightarrow>
                  (let s2 = setItem a (pendingItem\<lparr>onReturn := False, isAborted := True\<rparr>) s1
                   in if onAbort pendingItem then emit (OnAbort a) s2 else s2)))"

definition abortByKey :: "string \<Rightarrow> conn \<Rightarrow> conn" where
  "abortByKey key s =
     forEachPending
       (\<lambda>a s'. case itemAt s' a of
                  None \<Rightarrow> s'
                | Some v \<Rightarrow> if abortKey v = Some key then abort (sn v) s' else s') s"

definition abortAll :: "conn \<Rightarrow> conn" where
  "abortAll s =
     forEachPending (\<lambda>a s'. case itemAt s' a of None \<Rightarrow> s' | Some v \<Rightarrow> abort (sn v) s') s"

text \<open>
  \<^verbatim>\<open>_recvApiReturn\<close>, after the test for \<^verbatim>\<open>err\<close> with sn 0: look the item up by sn, drop
  the return when there is none or it is aborted, else call \<^verbatim>\<open>item.onReturn?.(apiReturn)\<close>.
\<close>

definition returnToPending :: "nat \<Rightarrow> ApiReturn \<Rightarrow> conn \<Rightarrow> conn" where
  "returnToPending k apiReturn s =
     (case map_of (pendingCallApis s) k of
        None \<Rightarrow> s
      | Some a \<Rightarrow>
          (case itemAt s a of
             None \<Rightarrow> s
           | Some item \<Rightarrow> if isAborted item then s else invokeOnReturn apiReturn a s))"

text \<open>
  \<^verbatim>\<open>_recvApiReturn(transportData)\<close>; the parameter's type admits \<^verbatim>\<open>res\<close> and \<^verbatim>\<open>err\<close> only.
\<close>

definition recvApiReturn :: "TransportData \<Rightarrow> conn \<Rightarrow> conn" where
  "recvApiReturn transportData s =
     (case transportData of
        TdErr k e pinfo \<Rightarrow>
          if k = 0 then emit (Log LError ''[RemoteErr]'') s
          else returnToPending k (ApiFail e) s
      | TdRes svc k body pinfo \<Rightarrow> returnToPending k (ApiSucc body) s
      | _ \<Rightarrow> s)"

subsection \<open>The send pipeline\<close>

text \<open>
  \<^verbatim>\<open>_sendBox\<close> up to its first \<^verbatim>\<open>await\<close>: encode the box and start the
  \<^verbatim>\<open>preSendDataFlow\<close>.
\<close>

definition sendBox ::
  "Codec \<Rightarrow> Box \<Rightarrow> BaseConnectionDataType \<Rightarrow> TransportData \<Rightarrow> conn
     \<Rightarrow> OpResultVoid async \<times> conn" where
  "sendBox env box dt transportData s =
     (let s1 = logIf (debugBuf (options s)) LDebug ''[debugBuf] [SendBox]'' s;
          s2 = emit (EncodeBox dt box) s1;
          opEncodeBox = (if dt = DataBuffer then encodeBoxBuffer env box (encodeSkipSN s)
                         else encodeBoxText env box (encodeSkipSN s))
      in case opEncodeBox of
           Inl errMsg \<Rightarrow> (Done (OpFail errMsg), s2)
         | Inr raw \<Rightarrow> (Await, emit (FlowExec PreSendDataFlow) s2))"

text \<open>
  \<^verbatim>\<open>_sendBox\<close> from the return of the \<^verbatim>\<open>preSendDataFlow\<close> (\<open>pre\<close> is \<open>None\<close> when the flow
  was canceled, else the data it returned) to the call of \<^verbatim>\<open>_sendData\<close>.
\<close>

definition sendBoxResume ::
  "Codec \<Rightarrow> RawData option \<Rightarrow> TransportData \<Rightarrow> conn \<Rightarrow> OpResultVoid async \<times> conn" where
  "sendBoxResume env pre transportData s =
     (case pre of
        None \<Rightarrow> (Aborted, s)
      | Some raw \<Rightarrow>
          if status s \<noteq> Connected then (Done (OpFail (errConnNotConnected env)), s)
          else (Await, emit (SendData raw transportData)
                         (logIf (debugBuf (options s)) LDebug ''[debugBuf] [SendData]'' s)))"

text \<open>\<^verbatim>\<open>_sendBox\<close> after \<^verbatim>\<open>_sendData\<close> resolved with \<open>opSend\<close>.\<close>

definition sendBoxEnd :: "OpResultVoid \<Rightarrow> conn \<Rightarrow> OpResultVoid async \<times> conn" where
  "sendBoxEnd opSend s =
     (Done opSend, if opSend = OpSucc then emit (FlowExec PostSendDataFlow) s else s)"

text \<open>
  \<^verbatim>\<open>_sendTransportData(transportData, options)\<close> up to the first \<^verbatim>\<open>await\<close> (which is
  inside \<^verbatim>\<open>_sendBox\<close>). The optional \<^verbatim>\<open>call\<close> is only passed on to the flows.
\<close>

definition sendTransportData ::
  "Codec \<Rightarrow> TransportData \<Rightarrow> TransportOptions option \<Rightarrow> conn \<Rightarrow> OpResultVoid async \<times> conn" where
  "sendTransportData env transportData opts s =
     (let s1 = logIf (debugBuf (options s)) LDebug ''[debugBuf] [SendTransportData]'' s
      in if status s1 \<noteq> Connected then (Done (OpFail (errConnNotConnected env)), s1)
         else
           (let dt = (case opts of
                        None \<Rightarrow> dataType s1
                      | Some opt \<Rightarrow> (case optDataType opt of None \<Rightarrow> dataType s1 | Some d \<Rightarrow> d));
                s2 = emit (EncodeBody dt transportData) s1;
                opEncodeBody =
                  (if dt = DataBuffer
                   then encodeBodyBuffer env transportData (skipEncodeValidate (options s1))
                   else encodeBodyText env transportData (skipEncodeValidate (options s1)))
            in case opEncodeBody of
                 Inl errMsg \<Rightarrow> (Done (OpFail errMsg), s2)
               | Inr box \<Rightarrow> sendBox env box dt transportData s2))"

subsection \<open>Heartbeat\<close>

definition stopHeartbeat :: "conn \<Rightarrow> conn" where
  "stopHeartbeat s = s\<lparr>heartbeatState := None\<rparr>"

definition resetHeartbeatTimeout :: "conn \<Rightarrow> conn" where
  "resetHeartbeatTimeout s =
     (case heartbeatState s of
        None \<Rightarrow> s
      | Some hb \<Rightarrow>
          s\<lparr>heartbeatState := Some (hb\<lparr>recvTimeout := Some (heartbeatRecvTimeout (options s))\<rparr>)\<rparr>)"

text \<open>\<^verbatim>\<open>_sendHeartbeat()\<close>; \<open>now\<close> is the value of \<^verbatim>\<open>performance.now()\<close>.\<close>

definition sendHeartbeat :: "Codec \<Rightarrow> int \<Rightarrow> conn \<Rightarrow> conn" where
  "sendHeartbeat env now s =
     (case heartbeatState s of
        None \<Rightarrow> s
      | Some hb \<Rightarrow>
          (let (n, c) = getNext False (hbSn hb);
               s1 = s\<lparr>heartbeatState := Some (hb\<lparr>hbSn := c, lastSendTime := now\<rparr>)\<rparr>
           in snd (sendTransportData env (TdHeartbeat n None) None s1)))"

text \<open>\<^verbatim>\<open>_startHeartbeat()\<close>. The new counter takes the ceiling of the connection's counter.\<close>

definition startHeartbeat :: "Codec \<Rightarrow> int \<Rightarrow> conn \<Rightarrow> conn" where
  "startHeartbeat env now s =
     (if heartbeatState s \<noteq> None then s
      else
        (let s1 =
               (if heartbeatSendInterval (options s) \<noteq> 0
                then sendHeartbeat env now
                       (s\<lparr>heartbeatState :=
                            Some \<lparr>hbSn = newCounter (counterMax (callApiSn s)), sendTimer = None,
                                  recvTimeout = None, lastSendTime = 0\<rparr>\<rparr>)
                else s)
         in resetHeartbeatTimeout s1))"

text \<open>\<^verbatim>\<open>_recvHeartbeat(data)\<close> for \<^verbatim>\<open>data = {type: 'heartbeat', sn, isReply}\<close>.\<close>

definition recvHeartbeat :: "Codec \<Rightarrow> int \<Rightarrow> nat \<Rightarrow> bool option \<Rightarrow> conn \<Rightarrow> conn" where
  "recvHeartbeat env now n isReply s =
     (case heartbeatState s of
        None \<Rightarrow> s
      | Some hb0 \<Rightarrow>
          (let s1 = resetHeartbeatTimeout s
           in if isReply = Some True
              then
                (let s2 = s1\<lparr>lastHeartbeatLatency := now - lastSendTime hb0\<rparr>
                 in if heartbeatSendInterval (options s2) \<noteq> 0
                    then (case heartbeatState s2 of
                            None \<Rightarrow> s2
                          | Some hb \<Rightarrow>
                              s2\<lparr>heartbeatState :=
                                    Some (hb\<lparr>sendTimer := Some (heartbeatSendInterval (options s2))\<rparr>)\<rparr>)
                    else s2)
              else snd (sendTransportData env (TdHeartbeat n (Some True)) None s1)))"

text \<open>The setter of \<^verbatim>\<open>status\<close>.\<close>

definition setStatus :: "Codec \<Rightarrow> int \<Rightarrow> ConnectionStatus \<Rightarrow> conn \<Rightarrow> conn" where
  "setStatus env now newStatus s =
     (if status s = newStatus then s
      else
        (let s1 = s\<lparr>status := newStatus\<rparr>
         in if newStatus = Connected
            then emit (FlowExec PostConnectFlow)
                   (if heartbeat (options s1) then startHeartbeat env now s1 else s1)
            else s1))"

subsection \<open>Disconnecting\<close>

definition dquote :: string where
  "dquote = [CHR 0x22]"

definition connName :: "conn \<Rightarrow> string" where
  "connName s = (if side s = Server then ''connection'' else ''client'')"

fun statusName :: "ConnectionStatus \<Rightarrow> string" where
  "statusName Connecting = ''Connecting''"
| "statusName Connected = ''Connected''"
| "statusName Disconnecting = ''Disconnecting''"
| "statusName Disconnected = ''Disconnected''"

definition disconnectErrMsg :: "conn \<Rightarrow> string" where
  "disconnectErrMsg s =
     ''You can only call '' @ dquote @ ''disconnect'' @ dquote @ '' if the '' @ connName s
     @ '' status is '' @ dquote @ ''Connected'' @ dquote @ '' (the current status is ''
     @ dquote @ statusName (status s) @ dquote @ '')''"

text \<open>The error every pending call is failed with; an empty \<^verbatim>\<open>reason\<close> is falsy.\<close>

definition lostConnError :: "string option \<Rightarrow> TsrpcError" where
  "lostConnError reason =
     TsrpcError
       (''Disconnected to server''
        @ (case reason of None \<Rightarrow> [] | Some r \<Rightarrow> if r = [] then [] else '', reason: '' @ r))
       NetworkError (Some ''LOST_CONN'')"

text \<open>
  What \<^verbatim>\<open>_disconnect\<close> returns: a result of its own, or the promise stored in
  \<^verbatim>\<open>_disconnecting\<close>.
\<close>

datatype DisconnectResult = Result OpResultVoid | TheDisconnecting

text \<open>
  \<^verbatim>\<open>_disconnect(isManual, reason)\<close> up to the \<^verbatim>\<open>await Promise.race\<close>: the checks, the status
  \<^verbatim>\<open>Disconnecting\<close>, then the synchronous start of the inner function (stop the
  heartbeat, fail the pending calls, call \<^verbatim>\<open>_doDisconnect\<close>), whose promise is stored in
  \<^verbatim>\<open>_disconnecting\<close>.
\<close>

definition disconnect :: "bool \<Rightarrow> string option \<Rightarrow> conn \<Rightarrow> DisconnectResult \<times> conn" where
  "disconnect isManual reason s =
     (if disconnecting s then (TheDisconnecting, s)
      else if status s = Disconnected then (Result OpSucc, s)
      else if status s \<noteq> Connected then (Result (OpFail (disconnectErrMsg s)), s)
      else
        (let s1 = s\<lparr>status := Disconnecting\<rparr>;
             s2 = stopHeartbeat s1;
             s3 = forEachPending (invokeOnReturn (ApiFail (lostConnError reason))) s2;
             s4 = emit (DoDisconnect isManual reason) s3
         in (TheDisconnecting, s4\<lparr>disconnecting := True\<rparr>)))"

text \<open>
  The inner function after the race: \<open>winner\<close> is the result of \<^verbatim>\<open>_doDisconnect\<close> when it
  settled first, \<open>None\<close> when the 3 s timer did. The promise resolves with
  \<^verbatim>\<open>{isSucc: true}\<close>.
\<close>

definition disconnectFinish ::
  "bool \<Rightarrow> string option \<Rightarrow> OpResultVoid option \<Rightarrow> conn \<Rightarrow> OpResultVoid \<times> conn" where
  "disconnectFinish isManual reason winner s =
     (let s1 = (case winner of
                  None \<Rightarrow> emit (Log LDebug ''[DisconnectErr] _doDisconnect timeout'') s
                | Some OpSucc \<Rightarrow> s
                | Some (OpFail m) \<Rightarrow> emit (Log LDebug ''[DisconnectErr]'') s);
          s2 = s1\<lparr>status := Disconnected\<rparr>;
          s3 = (if logConnect (options s2)
                then (if side s2 = Client
                      then (if \<not> isManual
                            then emit (Log LWarn ''[Disconnect] Lost connection to the server'') s2
                            else emit (Log LInfo ''[Disconnect] Disconnected successfully'') s2)
                      else emit (Log LInfo ''[Disconnect] Connection disconnected'') s2)
                else s2)
      in (OpSucc, emit (FlowExec PostDisconnectFlow) s3))"

text \<open>The handler chained on the promise: \<^verbatim>\<open>this._disconnecting = undefined\<close>.\<close>

definition disconnectClear :: "conn \<Rightarrow> conn" where
  "disconnectClear s = s\<lparr>disconnecting := False\<rparr>"

subsection \<open>callApi\<close>

text \<open>What a call flow hands back: \<^verbatim>\<open>{apiName, req, return?}\<close>.\<close>

record CallApiFlowData =
  flowApiName :: string
  flowReq :: json
  flowReturn :: "ApiReturn option"

text \<open>
  \<^verbatim>\<open>callApi\<close> up to \<^verbatim>\<open>await preCallApiFlow.exec\<close>. The new item is allocated at the address
  \<open>length (heap s)\<close>.
\<close>

definition callApi :: "string \<Rightarrow> json \<Rightarrow> TransportOptions option \<Rightarrow> conn \<Rightarrow> conn" where
  "callApi name r opts s =
     (let (k, c) = getNext False (callApiSn s);
          s1 = logIf (logApi (options s)) LInfo ''[callApi] [Req]'' (s\<lparr>callApiSn := c\<rparr>);
          pendingItem =
            \<lparr>sn = k, apiName = name, req = r, isAborted = False,
             abortKey = (case opts of None \<Rightarrow> None | Some opt \<Rightarrow> optAbortKey opt),
             abortSignal = (case opts of None \<Rightarrow> False | Some opt \<Rightarrow> optAbortSignal opt),
             onAbort = False, onReturn = False, timer = None\<rparr>;
          a = length (heap s1);
          s2 = s1\<lparr>heap := heap s1 @ [pendingItem],
                  pendingCallApis := AList.update k a (pendingCallApis s1)\<rparr>
      in emit (FlowExec PreCallApiFlow) s2)"

text \<open>The \<^verbatim>\<open>req\<close> envelope built by \<^verbatim>\<open>_doCallApi\<close>.\<close>

definition doCallApiTransportData ::
  "string \<Rightarrow> json \<Rightarrow> PendingCallApiItem \<Rightarrow> conn \<Rightarrow> TransportData" where
  "doCallApiTransportData serviceName r pendingItem s =
     TdReq serviceName (sn pendingItem) r
       (if remoteProtoInfo s = None then Some (localProtoInfo s) else None)"

text \<open>\<^verbatim>\<open>options?.timeout ?? this.options.callApiTimeout\<close>.\<close>

definition effectiveTimeout :: "TransportOptions option \<Rightarrow> conn \<Rightarrow> int" where
  "effectiveTimeout opts s =
     (case opts of
        None \<Rightarrow> callApiTimeout (options s)
      | Some opt \<Rightarrow> (case optTimeout opt of None \<Rightarrow> callApiTimeout (options s) | Some t \<Rightarrow> t))"

text \<open>
  \<^verbatim>\<open>_doCallApi\<close> up to \<^verbatim>\<open>await promiseSend\<close>: it starts \<^verbatim>\<open>_sendTransportData\<close> (the first
  component is where that promise stands) and calls \<^verbatim>\<open>_waitApiReturn\<close>.
\<close>

definition doCallApi ::
  "Codec \<Rightarrow> string \<Rightarrow> json \<Rightarrow> nat \<Rightarrow> TransportOptions option \<Rightarrow> conn
     \<Rightarrow> OpResultVoid async \<times> conn" where
  "doCallApi env serviceName r a opts s =
     (case itemAt s a of
        None \<Rightarrow> (Await, s)
      | Some pendingItem \<Rightarrow>
          (let (promiseSend, s1) =
                 sendTransportData env (doCallApiTransportData serviceName r pendingItem s) opts s
           in (promiseSend, waitApiReturn a (effectiveTimeout opts s1) s1)))"

text \<open>\<^verbatim>\<open>_doCallApi\<close> once \<^verbatim>\<open>promiseSend\<close> has resolved with \<open>opSend\<close>.\<close>

definition doCallApiSent :: "OpResultVoid \<Rightarrow> ApiReturn async" where
  "doCallApiSent opSend =
     (case opSend of
        OpFail errMsg \<Rightarrow> Done (ApiFail (TsrpcError errMsg LocalError None))
      | OpSucc \<Rightarrow> Await)"

text \<open>\<^verbatim>\<open>_doCallApi\<close> once \<^verbatim>\<open>promiseReturn\<close> has resolved with \<open>ret\<close>.\<close>

definition doCallApiReturned :: "nat \<Rightarrow> ApiReturn \<Rightarrow> conn \<Rightarrow> ApiReturn async" where
  "doCallApiReturned a ret s =
     (case itemAt s a of
        None \<Rightarrow> Await
      | Some pendingItem \<Rightarrow> if isAborted pendingItem then Aborted else Done ret)"

text \<open>\<^verbatim>\<open>callApi\<close> from the moment \<^verbatim>\<open>ret\<close> is known to \<^verbatim>\<open>await preCallApiReturnFlow.exec\<close>.\<close>

definition callApiGotReturn :: "nat \<Rightarrow> ApiReturn \<Rightarrow> conn \<Rightarrow> ApiReturn async \<times> conn" where
  "callApiGotReturn a ret s =
     (case itemAt s a of
        None \<Rightarrow> (Await, s)
      | Some pendingItem \<Rightarrow>
          if isAborted pendingItem then (Aborted, s)
          else (Await, emit (FlowExec PreCallApiReturnFlow) s))"

text \<open>
  \<^verbatim>\<open>callApi\<close> from the return of the \<^verbatim>\<open>preCallApiFlow\<close> (\<open>preCall\<close> is \<open>None\<close> when the flow was
  canceled) to the next \<^verbatim>\<open>await\<close>.
\<close>

definition callApiPreCalled ::
  "Codec \<Rightarrow> nat \<Rightarrow> CallApiFlowData option \<Rightarrow> TransportOptions option \<Rightarrow> conn
     \<Rightarrow> ApiReturn async \<times> conn" where
  "callApiPreCalled env a preCall opts s =
     (case itemAt s a of
        None \<Rightarrow> (Await, s)
      | Some pendingItem \<Rightarrow>
          (case preCall of
             None \<Rightarrow> (Aborted, abort (sn pendingItem) s)
           | Some pc \<Rightarrow>
               if isAborted pendingItem then (Aborted, abort (sn pendingItem) s)
               else (case flowReturn pc of
                       Some ret \<Rightarrow> callApiGotReturn a ret s
                     | None \<Rightarrow> (Await, snd (doCallApi env (flowApiName pc) (flowReq pc) a opts s)))))"

text \<open>
  \<^verbatim>\<open>callApi\<close> from the return of the \<^verbatim>\<open>preCallApiReturnFlow\<close> (\<open>preReturn\<close> is \<open>None\<close> when
  the flow was canceled, else its \<^verbatim>\<open>return\<close>) to the end.
\<close>

definition callApiEnd :: "nat \<Rightarrow> ApiReturn option \<Rightarrow> conn \<Rightarrow> ApiReturn async \<times> conn" where
  "callApiEnd a preReturn s =
     (case itemAt s a of
        None \<Rightarrow> (Await, s)
      | Some pendingItem \<Rightarrow>
          (case preReturn of
             None \<Rightarrow> (Aborted, abort (sn pendingItem) s)
           | Some ret \<Rightarrow>
               if isAborted pendingItem then (Aborted, abort (sn pendingItem) s)
               else
                 (let s1 = (if logApi (options s)
                            then (case ret of
                                    ApiSucc v \<Rightarrow> emit (Log LInfo ''[callApi] [Res]'') s
                                  | ApiFail (TsrpcError m ty c) \<Rightarrow>
                                      emit (Log (if ty = ApiError then LInfo else LError)
                                              ''[callApi] [Err]'') s)
                            else s)
                  in (Done ret, deletePending (sn pendingItem) s1))))"

text \<open>
  What the promise of \<^verbatim>\<open>_waitApiReturn\<close> for the item at address \<open>a\<close> has resolved with:
  the value of the first call of its \<^verbatim>\<open>rs\<close>, by the listener or by the timer; \<open>None\<close> while
  neither has run.
\<close>

fun waitResult :: "nat \<Rightarrow> Event list \<Rightarrow> ApiReturn option" where
  "waitResult a [] = None"
| "waitResult a (OnReturn b ret # es) = (if b = a then Some ret else waitResult a es)"
| "waitResult a (TimeoutReturn b ret # es) = (if b = a then Some ret else waitResult a es)"
| "waitResult a (e # es) = waitResult a es"

text \<open>
  What \<^verbatim>\<open>_doCallApi\<close> returns once \<^verbatim>\<open>promiseSend\<close> has resolved with \<open>opSend\<close>: the local
  error of a failed send; otherwise it awaits \<^verbatim>\<open>promiseReturn\<close> and hands its value on,
  unless the item is aborted by then.
\<close>

definition doCallApiFinish :: "nat \<Rightarrow> OpResultVoid \<Rightarrow> conn \<Rightarrow> ApiReturn async" where
  "doCallApiFinish a opSend s =
     (case doCallApiSent opSend of
        Done ret \<Rightarrow> Done ret
      | Aborted \<Rightarrow> Aborted
      | Await \<Rightarrow>
          (case waitResult a (trace s) of
             None \<Rightarrow> Await
           | Some ret \<Rightarrow> doCallApiReturned a ret s))"

text \<open>
  The rest of \<^verbatim>\<open>callApi\<close> from the resolution of \<^verbatim>\<open>promiseSend\<close> on, when nothing else
  runs in between: the value of \<^verbatim>\<open>_doCallApi\<close>, then the \<^verbatim>\<open>preCallApiReturnFlow\<close>, which
  maps the return to the one it hands back (\<open>None\<close>: canceled), then the end of \<^verbatim>\<open>callApi\<close>.
  While \<^verbatim>\<open>_doCallApi\<close> has not returned, or when it returned \<^verbatim>\<open>PROMISE_ABORTED\<close>, \<^verbatim>\<open>callApi\<close>
  does not go on.
\<close>

definition callApiFinish ::
  "nat \<Rightarrow> OpResultVoid \<Rightarrow> (ApiReturn \<Rightarrow> ApiReturn option) \<Rightarrow> conn
     \<Rightarrow> ApiReturn async \<times> conn" where
  "callApiFinish a opSend preReturnFlow s =
     (case doCallApiFinish a opSend s of
        Await \<Rightarrow> (Await, s)
      | Aborted \<Rightarrow> (Aborted, s)
      | Done ret \<Rightarrow>
          (let (r, s1) = callApiGotReturn a ret s
           in if r = Await then callApiEnd a (preReturnFlow ret) s1 else (r, s1)))"

subsection \<open>The receive pipeline\<close>

text \<open>\<^verbatim>\<open>_recvMsg\<close> up to \<^verbatim>\<open>await preRecvMsgFlow.exec\<close>.\<close>

definition recvMsg :: "string \<Rightarrow> json \<Rightarrow> conn \<Rightarrow> conn" where
  "recvMsg serviceName body s =
     emit (FlowExec PreRecvMsgFlow) (logIf (logMsg (options s)) LInfo ''[RecvMsg]'' s)"

text \<open>\<^verbatim>\<open>_recvMsg\<close> after the flow; \<open>pre\<close> is false when the flow was canceled.\<close>

definition recvMsgResume :: "bool \<Rightarrow> string \<Rightarrow> json \<Rightarrow> conn \<Rightarrow> conn" where
  "recvMsgResume pre serviceName body s = (if pre then emit (EmitMsg serviceName body) s else s)"

fun protoInfoOf :: "TransportData \<Rightarrow> ProtoInfo option" where
  "protoInfoOf (TdReq svc k body pinfo) = pinfo"
| "protoInfoOf (TdRes svc k body pinfo) = pinfo"
| "protoInfoOf (TdErr k e pinfo) = pinfo"
| "protoInfoOf _ = None"

text \<open>
  \<^verbatim>\<open>_recvTransportData\<close>. None of the branches awaits before it has called its handler;
  \<^verbatim>\<open>new ApiCall(...).execute()\<close> is a collaborator and appears in the trace only.
\<close>

definition recvTransportData :: "Codec \<Rightarrow> int \<Rightarrow> TransportData \<Rightarrow> conn \<Rightarrow> conn" where
  "recvTransportData env now transportData s =
     (let s1 = logIf (debugBuf (options s)) LDebug ''[debugBuf] [RecvTransportData]'' s;
          s2 = (case protoInfoOf transportData of
                  None \<Rightarrow> s1
                | Some pinfo \<Rightarrow> s1\<lparr>remoteProtoInfo := Some pinfo\<rparr>)
      in case transportData of
           TdReq svc k body pinfo \<Rightarrow> emit (ApiCallExecute svc k body pinfo) s2
         | TdRes svc k body pinfo \<Rightarrow> recvApiReturn transportData s2
         | TdErr k e pinfo \<Rightarrow> recvApiReturn transportData s2
         | TdMsg svc body \<Rightarrow> recvMsg svc body s2
         | TdHeartbeat n isReply \<Rightarrow> recvHeartbeat env now n isReply s2
         | TdCustom c \<Rightarrow> if hasRecvCustom s2 then emit (RecvCustom c) s2 else s2)"

definition cannotDecodeDesync :: string where
  "cannotDecodeDesync =
     ''Cannot decode body from the data, because the serviceProto is different between the local and remote.''"

definition cannotDecodeUnknown :: string where
  "cannotDecodeUnknown =
     ''Cannot decode body from the data, the box encoding is valid, but the body encoding is unknown.''"

text \<open>
  \<^verbatim>\<open>_recvBox(box, dataType)\<close>; it has no \<^verbatim>\<open>await\<close>. The text of the log lines is reduced
  to their tag.
\<close>

definition recvBox ::
  "Codec \<Rightarrow> int \<Rightarrow> Box \<Rightarrow> BaseConnectionDataType \<Rightarrow> conn \<Rightarrow> OpResultVoid \<times> conn" where
  "recvBox env now box dt s =
     (let s1 = logIf (debugBuf (options s)) LDebug ''[debugBuf] [RecvBox]'' s;
          s2 = emit (DecodeBody dt box) s1;
          opDecodeBody = (if dt = DataText
                          then decodeBodyText env box (skipDecodeValidate (options s))
                          else decodeBodyBuffer env box (skipDecodeValidate (options s)))
      in case opDecodeBody of
           Inr transportData \<Rightarrow> (OpSucc, recvTransportData env now transportData s2)
         | Inl (errMsg, phase) \<Rightarrow>
             (let s3 = logIf (debugBuf (options s2)) LDebug ''[DecodeBodyErr]'' s2;
                  protoNotSynced = (case boxProtoInfo box of
                                      None \<Rightarrow> False
                                    | Some rp \<Rightarrow> md5 rp \<noteq> md5 (localProtoInfo s3));
                  errReason = (if phase = PhaseValidate then errMsg
                               else if dt = DataText then errMsg
                               else if protoNotSynced then cannotDecodeDesync
                               else cannotDecodeUnknown);
                  s4 = emit (Log LError ''[RecvDataErr] '') s3;
                  s5 = (if boxType box = BoxReq
                        then snd (sendTransportData env
                                    (TdErr (boxSn box) (TsrpcError errReason RemoteError None)
                                       (Some (localProtoInfo s4))) None s4)
                        else if boxType box = BoxRes
                        then recvTransportData env now
                               (TdErr (boxSn box) (TsrpcError errReason LocalError None)
                                  (boxProtoInfo box)) s4
                        else s4)
              in (OpFail errReason, s5)))"

text \<open>\<^verbatim>\<open>_recvData\<close> up to \<^verbatim>\<open>await preRecvDataFlow.exec\<close>.\<close>

definition recvData :: "RawData \<Rightarrow> conn \<Rightarrow> OpResultVoid async \<times> conn" where
  "recvData raw s =
     (if status s \<noteq> Connected then (Aborted, s)
      else (Await, emit (FlowExec PreRecvDataFlow)
                     (logIf (debugBuf (options s)) LDebug ''[debugBuf] [RecvData]'' s)))"

text \<open>What the \<^verbatim>\<open>preRecvDataFlow\<close> hands back: \<^verbatim>\<open>{data, decodedData?}\<close>.\<close>

record RecvDataFlowData =
  flowData :: RawData
  flowDecodedData :: "TransportData option"

text \<open>The pairs (sn, apiName) of the pending calls, for the decoders of a box.\<close>

definition pendingApiNames :: "conn \<Rightarrow> (nat \<times> string) list" where
  "pendingApiNames s =
     List.map_filter
       (\<lambda>(k, a). case itemAt s a of None \<Rightarrow> None | Some item \<Rightarrow> Some (k, apiName item))
       (pendingCallApis s)"

text \<open>
  \<^verbatim>\<open>_recvData\<close> from the return of the \<^verbatim>\<open>preRecvDataFlow\<close> (\<open>None\<close>: canceled) to its end;
  \<^verbatim>\<open>_recvBox\<close> and \<^verbatim>\<open>_recvTransportData\<close> are called without \<^verbatim>\<open>await\<close> and run at once.
  The optional \<^verbatim>\<open>boxInfo\<close> is only passed on to the decoder.
\<close>

definition recvDataResume ::
  "Codec \<Rightarrow> int \<Rightarrow> RecvDataFlowData option \<Rightarrow> conn \<Rightarrow> OpResultVoid async \<times> conn" where
  "recvDataResume env now pre s =
     (case pre of
        None \<Rightarrow> (Aborted, emit (Log LDebug ''[preRecvDataFlow] Canceled'') s)
      | Some p \<Rightarrow>
          (case flowDecodedData p of
             Some decoded \<Rightarrow> (Done OpSucc, recvTransportData env now decoded s)
           | None \<Rightarrow>
               (let raw = flowData p;
                    dt = (case raw of RawText t \<Rightarrow> DataText | RawBuffer b \<Rightarrow> DataBuffer);
                    s1 = emit (DecodeBox raw) s;
                    opDecodeBox =
                      (case raw of
                         RawText t \<Rightarrow>
                           decodeBoxText env t (pendingApiNames s) (skipDecodeValidate (options s))
                       | RawBuffer b \<Rightarrow>
                           decodeBoxBuffer env b (pendingApiNames s) (skipDecodeValidate (options s)))
                in case opDecodeBox of
                     Inr box \<Rightarrow> (Done OpSucc, snd (recvBox env now box dt s1))
                   | Inl (errMsg, phase) \<Rightarrow>
                       (let s2 = emit (Log LDebug ''[RecvDataErr]'') s1;
                            s3 = emit (Log LError
                                         (if dt = DataText \<or> phase = PhaseValidate
                                          then ''[RecvDataErr] Invalid data format''
                                          else ''[RecvDataErr] Unknown buffer encoding'')) s2;
                            s4 = snd (sendTransportData env
                                        (TdErr 0 (TsrpcError errMsg RemoteError None)
                                           (Some (localProtoInfo s3))) None s3)
                        in (Done (OpFail errMsg), s4)))))"

subsection \<open>The connection as a transition system\<close>

text \<open>
  The constructor: status \<^verbatim>\<open>Disconnected\<close>, \<^verbatim>\<open>_callApiSn = new Counter(1)\<close>, no pending
  call, no heartbeat. \<open>ceiling\<close> is the ceiling of the counter.
\<close>

definition newConnection ::
  "Side \<Rightarrow> BaseConnectionDataType \<Rightarrow> BaseConnectionOptions \<Rightarrow> ProtoInfo \<Rightarrow> nat \<Rightarrow> conn" where
  "newConnection sd dt opts pinfo ceiling =
     \<lparr>side = sd, dataType = dt, options = opts, localProtoInfo = pinfo,
      remoteProtoInfo = None, status = Disconnected, disconnecting = False,
      callApiSn = newCounter ceiling, heap = [], pendingCallApis = [],
      heartbeatState = None, lastHeartbeatLatency = 0, encodeSkipSN = None,
      hasRecvCustom = False, hasEmitMsg = False, trace = []\<rparr>"

text \<open>The two heartbeat timers: their callbacks run only while the timer is armed.\<close>

definition sendTimerFire :: "Codec \<Rightarrow> int \<Rightarrow> conn \<Rightarrow> conn" where
  "sendTimerFire env now s =
     (case heartbeatState s of
        None \<Rightarrow> s
      | Some hb \<Rightarrow> if sendTimer hb = None then s else sendHeartbeat env now s)"

definition recvTimeoutFire :: "conn \<Rightarrow> conn" where
  "recvTimeoutFire s =
     (case heartbeatState s of
        None \<Rightarrow> s
      | Some hb \<Rightarrow>
          if recvTimeout hb = None then s
          else snd (disconnect False (Some ''Receive heartbeat timeout'') s))"

text \<open>
  One action is one synchronous segment: a call of the public interface, the resumption
  of a suspended method with what it awaited, a timer callback, or a frame delivered by
  the transport. A run is any sequence of actions. Code of subclasses and users that a
  segment calls (\<^verbatim>\<open>onAbort\<close>, \<^verbatim>\<open>_doDisconnect\<close>, the first step of a flow) is taken to call
  the connection again in a segment of its own.
\<close>

datatype Action =
    ActCallApi string json "TransportOptions option"
  | ActPreCalled nat "CallApiFlowData option" "TransportOptions option"
  | ActGotReturn nat ApiReturn
  | ActCallApiEnd nat "ApiReturn option"
  | ActAbort nat
  | ActAbortByKey string
  | ActAbortAll
  | ActWaitTimer nat
  | ActRecvData RawData
  | ActRecvDataResume int "RecvDataFlowData option"
  | ActRecvMsgResume bool string json
  | ActSendTransportData TransportData "TransportOptions option"
  | ActSendBoxResume "RawData option" TransportData
  | ActSendBoxEnd OpResultVoid
  | ActSetStatus int ConnectionStatus
  | ActDisconnect bool "string option"
  | ActDisconnectFinish bool "string option" "OpResultVoid option"
  | ActDisconnectClear
  | ActSendTimer int
  | ActRecvTimeout

fun step :: "Codec \<Rightarrow> Action \<Rightarrow> conn \<Rightarrow> conn" where
  "step env (ActCallApi name r opts) s = callApi name r opts s"
| "step env (ActPreCalled a preCall opts) s = snd (callApiPreCalled env a preCall opts s)"
| "step env (ActGotReturn a ret) s = snd (callApiGotReturn a ret s)"
| "step env (ActCallApiEnd a preReturn) s = snd (callApiEnd a preReturn s)"
| "step env (ActAbort k) s = abort k s"
| "step env (ActAbortByKey key) s = abortByKey key s"
| "step env ActAbortAll s = abortAll s"
| "step env (ActWaitTimer a) s = waitTimerFire a s"
| "step env (ActRecvData raw) s = snd (recvData raw s)"
| "step env (ActRecvDataResume now pre) s = snd (recvDataResume env now pre s)"
| "step env (ActRecvMsgResume pre svc body) s = recvMsgResume pre svc body s"
| "step env (ActSendTransportData td opts) s = snd (sendTransportData env td opts s)"
| "step env (ActSendBoxResume pre td) s = snd (sendBoxResume env pre td s)"
| "step env (ActSendBoxEnd opSend) s = snd (sendBoxEnd opSend s)"
| "step env (ActSetStatus now newStatus) s = setStatus env now newStatus s"
| "step env (ActDisconnect isManual reason) s = snd (disconnect isManual reason s)"
| "step env (ActDisconnectFinish isManual reason winner) s =
     snd (disconnectFinish isManual reason winner s)"
| "step env ActDisconnectClear s = disconnectClear s"
| "step env (ActSendTimer now) s = sendTimerFire env now s"
| "step env ActRecvTimeout s = recvTimeoutFire s"

fun run :: "Codec \<Rightarrow> Action list \<Rightarrow> conn \<Rightarrow> conn" where
  "run env [] s = s"
| "run env (act # acts) s = run env acts (step env act s)"

text \<open>The addresses of the items whose \<^verbatim>\<open>onReturn\<close> ran, in the order of the trace.\<close>

fun returned :: "Event list \<Rightarrow> nat list" where
  "returned [] = []"
| "returned (OnReturn a ret # es) = a # returned es"
| "returned (e # es) = returned es"

text \<open>The returns handed to the item at one address, in the order of the trace.\<close>

fun returnsOf :: "nat \<Rightarrow> Event list \<Rightarrow> ApiReturn list" where
  "returnsOf a [] = []"
| "returnsOf a (OnReturn b ret # es) = (if b = a then ret # returnsOf a es else returnsOf a es)"
| "returnsOf a (e # es) = returnsOf a es"

text \<open>The calls of the transport's \<^verbatim>\<open>_sendData\<close>, in the order of the trace.\<close>

fun sent :: "Event list \<Rightarrow> (RawData \<times> TransportData) list" where
  "sent [] = []"
| "sent (SendData raw td # es) = (raw, td) # sent es"
| "sent (e # es) = sent es"

section \<open>The earlier revision of BaseConnection\<close>

subsection \<open>Registration of API handlers\<close>

text \<open>
  \<^verbatim>\<open>_apiHandlers: Record<string, ApiHandler | undefined> = {}\<close> is a plain object. The table
  maps the name of each own property to its value, \<open>None\<close> for \<^verbatim>\<open>undefined\<close>. Reading
  \<^verbatim>\<open>this._apiHandlers[apiName]\<close> gives the own property when there is one, and otherwise
  the member of \<^verbatim>\<open>Object.prototype\<close> of that name, when there is one. A handler is a
  function object and the members of \<^verbatim>\<open>Object.prototype\<close> are functions or objects: all
  are truthy.
\<close>

definition objectPrototypeMembers :: "string list" where
  "objectPrototypeMembers =
     [''constructor'', ''__defineGetter__'', ''__defineSetter__'', ''hasOwnProperty'',
      ''__lookupGetter__'', ''__lookupSetter__'', ''isPrototypeOf'', ''propertyIsEnumerable'',
      ''toString'', ''valueOf'', ''__proto__'', ''toLocaleString'']"

text \<open>Whether \<^verbatim>\<open>this._apiHandlers[apiName]\<close> is truthy.\<close>

definition handlerLookupTruthy :: "string \<Rightarrow> (string \<rightharpoonup> 'h option) \<Rightarrow> bool" where
  "handlerLookupTruthy name apiHandlers =
     (case apiHandlers name of
        Some v \<Rightarrow> v \<noteq> None
      | None \<Rightarrow> name \<in> set objectPrototypeMembers)"

text \<open>
  \<^verbatim>\<open>implementApi(apiName, handler)\<close>: the thrown error, or the new table together with the
  line handed to \<^verbatim>\<open>logger.log\<close>.
\<close>

definition implementApi ::
  "string \<Rightarrow> 'h \<Rightarrow> (string \<rightharpoonup> 'h option)
     \<Rightarrow> js_error + ((string \<rightharpoonup> 'h option) \<times> string)" where
  "implementApi name handler apiHandlers =
     (if handlerLookupTruthy name apiHandlers
      then Inl (Error (''implementApi duplicately for: '' @ name))
      else Inr (apiHandlers(name \<mapsto> Some handler), ''API implemented succ: '' @ name))"

subsection \<open>callApi and the return path of the earlier revision\<close>

text \<open>
  The earlier revision keeps the same fields \<^verbatim>\<open>_callApiSn\<close>, \<^verbatim>\<open>_pendingCallApis\<close>,
  \<^verbatim>\<open>_localProtoInfo\<close> and \<^verbatim>\<open>_remoteProtoInfo\<close>; its functions are modelled on the same
  state. \<^verbatim>\<open>callApi\<close> up to \<^verbatim>\<open>await preCallApiFlow.exec\<close>:
\<close>

definition callApiPrev :: "string \<Rightarrow> json \<Rightarrow> TransportOptions option \<Rightarrow> conn \<Rightarrow> conn" where
  "callApiPrev name r opts s =
     (let (k, c) = getNext False (callApiSn s);
          s1 = logIf (logApi (options s)) LLog ''[CallApi] [Req]'' (s\<lparr>callApiSn := c\<rparr>);
          pendingItem =
            \<lparr>sn = k, apiName = name, req = r, isAborted = False,
             abortKey = (case opts of None \<Rightarrow> None | Some opt \<Rightarrow> optAbortKey opt),
             abortSignal = (case opts of None \<Rightarrow> False | Some opt \<Rightarrow> optAbortSignal opt),
             onAbort = False, onReturn = False, timer = None\<rparr>;
          a = length (heap s1);
          s2 = s1\<lparr>heap := heap s1 @ [pendingItem],
                  pendingCallApis := AList.update k a (pendingCallApis s1)\<rparr>
      in emit (FlowExec PreCallApiFlow) s2)"

text \<open>
  The \<^verbatim>\<open>req\<close> envelope built by the earlier \<^verbatim>\<open>_doCallApi\<close>: its sn is \<^verbatim>\<open>this._nextSn\<close>,
  the getter that returns \<^verbatim>\<open>this._callApiSn.getNext(true)\<close>.
\<close>

definition doCallApiPrevTransportData ::
  "string \<Rightarrow> json \<Rightarrow> PendingCallApiItem \<Rightarrow> conn \<Rightarrow> TransportData" where
  "doCallApiPrevTransportData serviceName r pendingItem s =
     TdReq serviceName (fst (getNext True (callApiSn s))) r
       (if remoteProtoInfo s = None then Some (localProtoInfo s) else None)"

fun snOf :: "TransportData \<Rightarrow> nat" where
  "snOf (TdReq svc k body pinfo) = k"
| "snOf (TdRes svc k body pinfo) = k"
| "snOf (TdErr k e pinfo) = k"
| "snOf (TdHeartbeat k isReply) = k"
| "snOf _ = 0"

text \<open>
  The earlier \<^verbatim>\<open>_recvApiReturn\<close> up to \<^verbatim>\<open>await preCallApiReturnFlow.exec\<close>; it has no test
  for sn 0. \<open>Done ()\<close>: returned; \<open>Await\<close>: waiting for the flow.
\<close>

definition recvApiReturnPrev :: "TransportData \<Rightarrow> conn \<Rightarrow> unit async \<times> conn" where
  "recvApiReturnPrev transportData s =
     (case map_of (pendingCallApis s) (snOf transportData) of
        None \<Rightarrow> (Done (), emit (Log LError ''Invalid SN for callApi return'') s)
      | Some a \<Rightarrow>
          (case itemAt s a of
             None \<Rightarrow> (Done (), s)
           | Some item \<Rightarrow>
               if isAborted item then (Done (), s)
               else (Await, emit (FlowExec PreCallApiReturnFlow) s)))"

text \<open>
  The earlier \<^verbatim>\<open>_recvApiReturn\<close> after the flow: \<open>pre\<close> is \<open>None\<close> when the flow was
  canceled, else its \<^verbatim>\<open>return\<close>; \<open>a\<close> is the item found before the \<^verbatim>\<open>await\<close>.
\<close>

definition recvApiReturnPrevResume :: "nat \<Rightarrow> ApiReturn option \<Rightarrow> conn \<Rightarrow> conn" where
  "recvApiReturnPrevResume a pre s =
     (case itemAt s a of
        None \<Rightarrow> s
      | Some item \<Rightarrow>
          (case pre of
             None \<Rightarrow> s
           | Some ret \<Rightarrow> if isAborted item then s else invokeOnReturn ret a s))"

section \<open>Concrete values for the examples\<close>

text \<open>\<^verbatim>\<open>defaultBaseConnectionOptions\<close> as the source sets them.\<close>

definition defaultBaseConnectionOptions :: BaseConnectionOptions where
  "defaultBaseConnectionOptions =
     \<lparr>logConnect = True, logApi = True, logMsg = True, logReqBody = True, logResBody = True,
      debugBuf = False, callApiTimeout = 15000, apiCallTimeout = 15000,
      returnInnerError = True, skipEncodeValidate = False, skipDecodeValidate = False,
      heartbeat = True, heartbeatSendInterval = 1000, heartbeatRecvTimeout = 5000\<rparr>"

text \<open>
  A codec for the examples: every body encodes to a box and every box to a text frame;
  nothing decodes.
\<close>

fun boxTypeOf :: "TransportData \<Rightarrow> BoxType" where
  "boxTypeOf (TdReq svc k body pinfo) = BoxReq"
| "boxTypeOf (TdRes svc k body pinfo) = BoxRes"
| "boxTypeOf (TdErr k e pinfo) = BoxErr"
| "boxTypeOf (TdMsg svc body) = BoxMsg"
| "boxTypeOf (TdHeartbeat k isReply) = BoxHeartbeat"
| "boxTypeOf (TdCustom c) = BoxCustom"

definition exampleCodec :: Codec where
  "exampleCodec =
     \<lparr>encodeBodyText = (\<lambda>td skip. Inr \<lparr>boxType = boxTypeOf td, boxSn = snOf td,
                                          boxProtoInfo = protoInfoOf td, boxBody = ''body''\<rparr>),
      encodeBodyBuffer = (\<lambda>td skip. Inr \<lparr>boxType = boxTypeOf td, boxSn = snOf td,
                                            boxProtoInfo = protoInfoOf td, boxBody = ''body''\<rparr>),
      encodeBoxText = (\<lambda>box skipSN. Inr (RawText (boxBody box))),
      encodeBoxBuffer = (\<lambda>box skipSN. Inr (RawBuffer [])),
      decodeBoxText = (\<lambda>t pending skip. Inl (''cannot decode'', PhaseOther)),
      decodeBoxBuffer = (\<lambda>b pending skip. Inl (''cannot decode'', PhaseOther)),
      decodeBodyText = (\<lambda>box skip. Inl (''cannot decode'', PhaseOther)),
      decodeBodyBuffer = (\<lambda>box skip. Inl (''cannot decode'', PhaseOther)),
      errConnNotConnected = ''The connection is not connected''\<rparr>"

definition exampleProtoInfo :: ProtoInfo where
  "exampleProtoInfo = \<lparr>md5 = ''abc'', lastModified = 1\<rparr>"

text \<open>A client with the default options, and the same client once connected.\<close>

definition exampleClient :: conn where
  "exampleClient =
     newConnection Client DataText defaultBaseConnectionOptions exampleProtoInfo 2147483647"

definition connectedClient :: conn where
  "connectedClient = setStatus exampleCodec 0 Connected exampleClient"

text \<open>A client in receive-only heartbeat mode: \<^verbatim>\<open>heartbeatSendInterval = 0\<close>.\<close>

definition receiveOnlyClient :: conn where
  "receiveOnlyClient =
     newConnection Client DataText
       (defaultBaseConnectionOptions\<lparr>heartbeatSendInterval := 0\<rparr>) exampleProtoInfo 2147483647"

text \<open>
  A run in which a call is aborted while it waits for its return, and a reply for its sn
  that arrives afterwards; and a run in which the reply arrives twice.
\<close>

definition exampleAbortedCall :: "Action list" where
  "exampleAbortedCall =
     [ActSetStatus 0 Connected,
      ActCallApi ''Echo'' ''x'' None,
      ActPreCalled 0 (Some \<lparr>flowApiName = ''Echo'', flowReq = ''x'', flowReturn = None\<rparr>) None,
      ActAbort 1]"

definition exampleReply :: Action where
  "exampleReply =
     ActRecvDataResume 0
       (Some \<lparr>flowData = RawText ''frame'', flowDecodedData = Some (TdRes None 1 ''pong'' None)\<rparr>)"

definition exampleRepliedTwice :: "Action list" where
  "exampleRepliedTwice =
     [ActSetStatus 0 Connected,
      ActCallApi ''Echo'' ''x'' None,
      ActPreCalled 0 (Some \<lparr>flowApiName = ''Echo'', flowReq = ''x'', flowReturn = None\<rparr>) None,
      exampleReply, exampleReply]"

text \<open>
  A call that waits for its return (its request is on the way), and a call that still
  waits in the \<^verbatim>\<open>preCallApiFlow\<close>.
\<close>

definition exampleWaitingCall :: "Action list" where
  "exampleWaitingCall =
     [ActSetStatus 0 Connected,
      ActCallApi ''Echo'' ''x'' None,
      ActPreCalled 0 (Some \<lparr>flowApiName = ''Echo'', flowReq = ''x'', flowReturn = None\<rparr>) None]"

definition exampleUnsentCall :: "Action list" where
  "exampleUnsentCall = [ActSetStatus 0 Connected, ActCallApi ''Echo'' ''x'' None]"

text \<open>A call made on a connection that is not connected.\<close>

definition exampleCallWhileDisconnected :: "Action list" where
  "exampleCallWhileDisconnected =
     [ActCallApi ''Echo'' ''x'' None,
      ActPreCalled 0 (Some \<lparr>flowApiName = ''Echo'', flowReq = ''x'', flowReturn = None\<rparr>) None]"

section \<open>Invariants of the pending map\<close>

text \<open>
  Every entry of the pending map points to an allocated item that carries the entry's key
  as its sn and is not aborted.
\<close>

definition pendingInv :: "conn \<Rightarrow> bool" where
  "pendingInv s =
     list_all (\<lambda>(k, a). a < length (heap s) \<and> sn (heap s ! a) = k \<and> \<not> isAborted (heap s ! a))
       (pendingCallApis s)"

text \<open>An allocated item that the pending map no longer points to.\<close>

definition unlinked :: "conn \<Rightarrow> nat \<Rightarrow> bool" where
  "unlinked s a = (a < length (heap s) \<and> a \<notin> snd ` set (pendingCallApis s))"

text \<open>
  The relation between a state and a later one: the invariant holds, an unlinked item
  stays unlinked and its \<^verbatim>\<open>onReturn\<close> does not run, and the \<^verbatim>\<open>onReturn\<close> of any item runs at
  most once more, after which the item is unlinked.
\<close>

definition advance :: "conn \<Rightarrow> conn \<Rightarrow> bool" where
  "advance s s' =
     (pendingInv s' \<and> length (heap s) \<le> length (heap s')
      \<and> (\<forall>a. unlinked s a \<longrightarrow>
             unlinked s' a \<and> returnsOf a (trace s') = returnsOf a (trace s))
      \<and> (\<forall>a. returnsOf a (trace s') = returnsOf a (trace s)
             \<or> (unlinked s' a \<and> (\<exists>ret. returnsOf a (trace s') = returnsOf a (trace s) @ [ret]))))"

section \<open>Properties\<close>

subsection \<open>Unfolding sets and basic facts\<close>

lemmas example_defs = exampleClient_def connectedClient_def receiveOnlyClient_def
  newConnection_def defaultBaseConnectionOptions_def exampleProtoInfo_def exampleCodec_def
  newCounter_def

lemmas prim_defs = getNext_def emit_def logIf_def itemAt_def setItem_def deletePending_def Let_def

lemmas send_defs = sendTransportData_def sendBox_def sendBoxResume_def sendBoxEnd_def

lemmas heartbeat_defs = setStatus_def startHeartbeat_def sendHeartbeat_def stopHeartbeat_def
  resetHeartbeatTimeout_def recvHeartbeat_def sendTimerFire_def recvTimeoutFire_def

lemma returned_append [simp]: "returned (xs @ ys) = returned xs @ returned ys"
  by (induction xs rule: returned.induct) auto

lemma returnsOf_append [simp]: "returnsOf a (xs @ ys) = returnsOf a xs @ returnsOf a ys"
  by (induction a xs rule: returnsOf.induct) auto

text \<open>A property kept by the callback is kept by the whole \<^verbatim>\<open>forEach\<close>.\<close>

lemma forEachKey_preserves:
  assumes "\<And>a s. P s \<Longrightarrow> P (f a s)" and "P s"
  shows "P (forEachKey f ks s)"
  using assms(2)
proof (induction ks arbitrary: s)
  case Nil
  then show ?case by simp
next
  case (Cons k ks)
  then show ?case by (auto split: option.splits intro: assms(1))
qed

lemma invokeOnReturn_status [simp]:
  "status (invokeOnReturn ret a s) = status s"
  "disconnecting (invokeOnReturn ret a s) = disconnecting s"
  by (simp_all add: invokeOnReturn_def prim_defs split: option.splits)

lemma sendTransportData_status [simp]:
  "status (snd (sendTransportData env td opts s)) = status s"
  "disconnecting (snd (sendTransportData env td opts s)) = disconnecting s"
  by (simp_all add: send_defs prim_defs split: sum.splits option.splits)

lemma disconnect_proceeds_status:
  assumes "status s = Connected" and "\<not> disconnecting s"
  shows "status (snd (disconnect isManual reason s)) = Disconnecting"
proof -
  have "status (forEachKey (invokeOnReturn ret) ks s') = Disconnecting"
    if "status s' = Disconnecting" for ret ks s'
    using that by (rule forEachKey_preserves[where P = "\<lambda>s. status s = Disconnecting", rotated]) simp
  then show ?thesis
    using assms by (simp add: disconnect_def forEachPending_def stopHeartbeat_def prim_defs)
qed

lemma exampleClient_status:
  "status exampleClient = Disconnected" "\<not> disconnecting exampleClient"
  "pendingCallApis exampleClient = []"
  by (simp_all add: example_defs)

lemma connectedClient_status:
  "status connectedClient = Connected" "\<not> disconnecting connectedClient"
  by (simp_all add: example_defs heartbeat_defs send_defs prim_defs)

subsection \<open>The sequence number of the request envelope\<close>

text \<open>
  In the current revision the envelope built by \<^verbatim>\<open>_doCallApi\<close> carries the sn of the
  pending item it was given.
\<close>

lemma doCallApi_sn_is_item_sn:
  "snOf (doCallApiTransportData svc r pendingItem s) = sn pendingItem"
  by (simp add: doCallApiTransportData_def)

text \<open>
  In the earlier revision the sn of the envelope is read from the counter and does not
  depend on the pending item at all.
\<close>

lemma doCallApiPrev_sn_ignores_item:
  "snOf (doCallApiPrevTransportData svc r item s)
     = snOf (doCallApiPrevTransportData svc' r' item' s)"
  by (simp add: doCallApiPrevTransportData_def)

text \<open>
  C1 (the outbound \<^verbatim>\<open>req\<close> carries the sn of the pending call registered by
  \<^verbatim>\<open>callApi\<close>), evaluated on the earlier revision for two calls that both wait in the
  \<^verbatim>\<open>preCallApiFlow\<close>: the calls are registered under sn 1 and sn 2, and the envelopes then
  built for them both carry sn 3.
\<close>

theorem doCallApiPrev_sn_mismatch:
  "(let s2 = callApiPrev ''B'' ''y'' None (callApiPrev ''A'' ''x'' None exampleClient)
    in map sn (heap s2) = [1, 2] \<and> pendingCallApis s2 = [(1, 0), (2, 1)]
       \<and> doCallApiPrevTransportData ''A'' ''x'' (heap s2 ! 0) s2
           = TdReq ''A'' 3 ''x'' (Some exampleProtoInfo)
       \<and> doCallApiPrevTransportData ''B'' ''y'' (heap s2 ! 1) s2
           = TdReq ''B'' 3 ''y'' (Some exampleProtoInfo))"
  by (simp add: callApiPrev_def doCallApiPrevTransportData_def example_defs prim_defs)

subsection \<open>Receive-only heartbeat\<close>

text \<open>
  C3 (with \<^verbatim>\<open>heartbeat = true\<close> and \<^verbatim>\<open>heartbeatSendInterval = 0\<close> a connected connection
  still answers pings and keeps the receive timeout), evaluated on the code: after the
  status becomes \<^verbatim>\<open>Connected\<close> no heartbeat state exists, a received ping changes nothing
  (no pong is encoded or sent), and there is no receive timer that could fire.
\<close>

theorem receive_only_heartbeat_inert:
  "(let s = setStatus env now Connected receiveOnlyClient
    in status s = Connected \<and> heartbeat (options s) \<and> heartbeatSendInterval (options s) = 0
       \<and> heartbeatState s = None
       \<and> trace s = [FlowExec PostConnectFlow]
       \<and> recvHeartbeat env now' k None s = s
       \<and> recvHeartbeat env now' k (Some False) s = s
       \<and> recvTimeoutFire s = s)"
  by (simp add: heartbeat_defs example_defs prim_defs)

subsection \<open>An \<^verbatim>\<open>err\<close> with sn 0\<close>

text \<open>
  C6: an inbound \<^verbatim>\<open>err\<close> with sn 0 is only logged. In the current revision
  \<^verbatim>\<open>_recvApiReturn\<close> does nothing but log it, and the whole dispatch leaves the pending
  map and the items unchanged and runs no \<^verbatim>\<open>onReturn\<close>. In the earlier revision, where
  no pending call is registered under sn 0, it is logged as an invalid sn and nothing
  else happens.
\<close>

theorem sn0_err_is_only_logged:
  "recvApiReturn (TdErr 0 e pinfo) s = emit (Log LError ''[RemoteErr]'') s
   \<and> pendingCallApis (recvTransportData env now (TdErr 0 e pinfo) s) = pendingCallApis s
   \<and> heap (recvTransportData env now (TdErr 0 e pinfo) s) = heap s
   \<and> returned (trace (recvTransportData env now (TdErr 0 e pinfo) s)) = returned (trace s)
   \<and> (map_of (pendingCallApis s) 0 = None \<longrightarrow>
        recvApiReturnPrev (TdErr 0 e pinfo) s
          = (Done (), emit (Log LError ''Invalid SN for callApi return'') s))"
  by (simp add: recvApiReturn_def recvTransportData_def recvApiReturnPrev_def prim_defs
           split: option.splits)

theorem sn0_err_is_only_logged_witness:
  "recvApiReturnPrev (TdErr 0 (TsrpcError ''bad frame'' RemoteError None) None) exampleClient
     = (Done (), emit (Log LError ''Invalid SN for callApi return'') exampleClient)"
  using sn0_err_is_only_logged
          [of "TsrpcError ''bad frame'' RemoteError None" None exampleClient exampleCodec 0]
  by (simp add: exampleClient_status)

text \<open>The counter never issues 0, so no call is ever registered under sn 0.\<close>

lemma getNext_positive: "0 < fst (getNext peek c)"
  by (simp add: getNext_def Let_def)

lemma callApi_keeps_sn0_free:
  assumes "map_of (pendingCallApis s) 0 = None"
  shows "map_of (pendingCallApis (callApi name r opts s)) 0 = None"
    and "map_of (pendingCallApis (callApiPrev name r opts s)) 0 = None"
  using assms getNext_positive[of False "callApiSn s"]
  by (simp_all add: callApi_def callApiPrev_def prim_defs update_conv' split: prod.splits)

subsection \<open>A connection that is not connected\<close>

text \<open>
  C7: while the status is not \<^verbatim>\<open>Connected\<close>, \<^verbatim>\<open>_sendTransportData\<close> returns the failed
  result of \<^verbatim>\<open>_errConnNotConnected()\<close> and does nothing else than its optional debug log
  (no encoder is called, no flow is run, nothing is sent), and \<^verbatim>\<open>_recvData\<close> gives back
  \<^verbatim>\<open>PROMISE_ABORTED\<close> and changes nothing (no flow, no decoder, no dispatch).
\<close>

theorem not_connected_drops:
  "status s \<noteq> Connected \<Longrightarrow>
     sendTransportData env transportData opts s
       = (Done (OpFail (errConnNotConnected env)),
          logIf (debugBuf (options s)) LDebug ''[debugBuf] [SendTransportData]'' s)
     \<and> recvData raw s = (Aborted, s)"
  by (simp add: sendTransportData_def recvData_def prim_defs)

theorem not_connected_drops_witness:
  "sendTransportData exampleCodec (TdMsg ''Chat'' ''hi'') None exampleClient
     = (Done (OpFail ''The connection is not connected''), exampleClient)
   \<and> recvData (RawText ''frame'') exampleClient = (Aborted, exampleClient)"
proof -
  have h: "status exampleClient \<noteq> Connected"
    by (simp add: exampleClient_status)
  have l: "logIf (debugBuf (options exampleClient)) LDebug ''[debugBuf] [SendTransportData]''
             exampleClient = exampleClient"
    by (simp add: example_defs prim_defs)
  have e: "errConnNotConnected exampleCodec = ''The connection is not connected''"
    by (simp add: exampleCodec_def)
  from not_connected_drops[OF h, of exampleCodec "TdMsg ''Chat'' ''hi''" None "RawText ''frame''"]
  show ?thesis by (simp only: l e)
qed

text \<open>
  A name under which a handler is registered makes \<^verbatim>\<open>implementApi\<close> throw; a name that is
  neither an own property of the table nor a member of \<^verbatim>\<open>Object.prototype\<close> is registered;
  and whenever \<^verbatim>\<open>implementApi\<close> returns normally, every handler registered before is still
  registered, unchanged.
\<close>

lemma implementApi_throws_registered:
  "apiHandlers name = Some (Some h0) \<Longrightarrow>
     implementApi name handler apiHandlers
       = Inl (Error (''implementApi duplicately for: '' @ name))"
  by (simp add: implementApi_def handlerLookupTruthy_def)

lemma implementApi_registers_fresh:
  "apiHandlers name = None \<Longrightarrow> name \<notin> set objectPrototypeMembers \<Longrightarrow>
     implementApi name handler apiHandlers
       = Inr (apiHandlers(name \<mapsto> Some handler), ''API implemented succ: '' @ name)"
  by (simp add: implementApi_def handlerLookupTruthy_def)

lemma implementApi_keeps_registered:
  "implementApi name handler apiHandlers = Inr (hs', line) \<Longrightarrow>
     apiHandlers k = Some (Some h) \<Longrightarrow> hs' k = Some (Some h)"
  by (auto simp: implementApi_def handlerLookupTruthy_def split: if_splits)

lemma implementApi_examples:
  "implementApi ''Echo'' (2::nat) [''Echo'' \<mapsto> Some 1]
     = Inl (Error ''implementApi duplicately for: Echo'')"
  "implementApi ''Ping'' (2::nat) [''Echo'' \<mapsto> Some 1]
     = Inr ([''Echo'' \<mapsto> Some 1, ''Ping'' \<mapsto> Some 2], ''API implemented succ: Ping'')"
  by (simp_all add: implementApi_def handlerLookupTruthy_def objectPrototypeMembers_def)

text \<open>
  C10 (\<^verbatim>\<open>implementApi\<close> throws when a handler is already registered for the name and
  otherwise registers the handler), evaluated on the code for a new connection, whose
  table is empty: for \<^verbatim>\<open>toString\<close>, \<^verbatim>\<open>constructor\<close> and \<^verbatim>\<open>hasOwnProperty\<close> no handler is
  registered, yet the lookup finds the member of \<^verbatim>\<open>Object.prototype\<close> and
  \<^verbatim>\<open>implementApi\<close> throws instead of registering.
\<close>

theorem implementApi_inherited_name_throws:
  "implementApi ''toString'' handler Map.empty
     = Inl (Error ''implementApi duplicately for: toString'')
   \<and> implementApi ''constructor'' handler Map.empty
     = Inl (Error ''implementApi duplicately for: constructor'')
   \<and> implementApi ''hasOwnProperty'' handler Map.empty
     = Inl (Error ''implementApi duplicately for: hasOwnProperty'')"
  by (simp add: implementApi_def handlerLookupTruthy_def objectPrototypeMembers_def)

lemma pendingInv_iff:
  "pendingInv s \<longleftrightarrow>
     (\<forall>(k, a) \<in> set (pendingCallApis s).
         a < length (heap s) \<and> sn (heap s ! a) = k \<and> \<not> isAborted (heap s ! a))"
  by (simp add: pendingInv_def list_all_iff)

lemma pendingInv_lookup:
  assumes "pendingInv s" and "map_of (pendingCallApis s) k = Some a"
  shows "a < length (heap s)" "sn (heap s ! a) = k" "\<not> isAborted (heap s ! a)"
  using assms map_of_SomeD[OF assms(2)] by (auto simp: pendingInv_iff)

lemma pendingInv_same_addr:
  assumes "pendingInv s" and "(k, a) \<in> set (pendingCallApis s)"
  shows "sn (heap s ! a) = k"
  using assms by (auto simp: pendingInv_iff)

lemma set_delete: "set (AList.delete k al) = {p \<in> set al. fst p \<noteq> k}"
  by (auto simp: AList.delete_eq)

lemma advance_refl: "pendingInv s \<Longrightarrow> advance s s"
  by (simp add: advance_def)

lemma advance_trans:
  assumes "advance s s'" and "advance s' s''"
  shows "advance s s''"
  unfolding advance_def
proof (intro conjI allI impI)
  show "pendingInv s''" using assms(2) by (simp add: advance_def)
  show "length (heap s) \<le> length (heap s'')" using assms by (simp add: advance_def)
next
  fix a assume u: "unlinked s a"
  with assms(1) have u': "unlinked s' a" and r: "returnsOf a (trace s') = returnsOf a (trace s)"
    by (auto simp: advance_def)
  with assms(2) show "unlinked s'' a" and "returnsOf a (trace s'') = returnsOf a (trace s)"
    by (auto simp: advance_def)
next
  fix a
  from assms(1) consider (same) "returnsOf a (trace s') = returnsOf a (trace s)"
    | (once) ret where "unlinked s' a" "returnsOf a (trace s') = returnsOf a (trace s) @ [ret]"
    by (auto simp: advance_def)
  then show "returnsOf a (trace s'') = returnsOf a (trace s) \<or>
         unlinked s'' a \<and> (\<exists>ret. returnsOf a (trace s'') = returnsOf a (trace s) @ [ret])"
  proof cases
    case same
    from assms(2) have "returnsOf a (trace s'') = returnsOf a (trace s') \<or>
         unlinked s'' a \<and> (\<exists>ret. returnsOf a (trace s'') = returnsOf a (trace s') @ [ret])"
      unfolding advance_def by blast
    with same show ?thesis by simp
  next
    case once
    with assms(2) have "unlinked s'' a" "returnsOf a (trace s'') = returnsOf a (trace s')"
      by (auto simp: advance_def)
    with once show ?thesis by auto
  qed
qed

lemma advance_frame:
  assumes "pendingInv s" and "heap s' = heap s" and "pendingCallApis s' = pendingCallApis s"
    and "\<And>a. returnsOf a (trace s') = returnsOf a (trace s)"
  shows "advance s s'"
  using assms by (simp add: advance_def unlinked_def pendingInv_def)

text \<open>deleting a key and updating an item's listener fields\<close>

lemma advance_deletePending:
  assumes "pendingInv s"
  shows "advance s (deletePending k s)"
  using assms
  by (auto simp: advance_def unlinked_def pendingInv_iff deletePending_def set_delete)

lemma advance_setItem:
  assumes "pendingInv s" and "itemAt s a = Some item" and "sn item' = sn item"
    and "isAborted item' = isAborted item"
  shows "advance s (setItem a item' s)"
  using assms
  by (auto simp: advance_def unlinked_def pendingInv_iff setItem_def itemAt_def nth_list_update
           split: if_splits)

lemma advance_emit:
  assumes "pendingInv s" and "returned [e] = []"
  shows "advance s (emit e s)"
  using assms
  by (intro advance_frame) (auto simp: emit_def elim: returned.elims)


lemma advance_logIf:
  assumes "pendingInv s"
  shows "advance s (logIf b lvl tag s)"
  using assms by (simp add: logIf_def advance_refl advance_emit)

text \<open>a step that allocates nothing and only removes entries\<close>

lemma advance_shrink:
  assumes inv: "pendingInv s"
    and len: "length (heap s') = length (heap s)"
    and sn: "\<And>b. b < length (heap s) \<Longrightarrow> sn (heap s' ! b) = sn (heap s ! b)"
    and ab: "\<And>k b. (k, b) \<in> set (pendingCallApis s') \<Longrightarrow> isAborted (heap s' ! b) = isAborted (heap s ! b)"
    and sub: "set (pendingCallApis s') \<subseteq> set (pendingCallApis s)"
    and ret: "\<And>b. b \<noteq> a \<Longrightarrow> returnsOf b (trace s') = returnsOf b (trace s)"
    and reta: "returnsOf a (trace s') = returnsOf a (trace s)
               \<or> (a \<in> snd ` set (pendingCallApis s) \<and> a \<notin> snd ` set (pendingCallApis s')
                   \<and> (\<exists>r. returnsOf a (trace s') = returnsOf a (trace s) @ [r]))"
  shows "advance s s'"
  unfolding advance_def
proof (intro conjI allI impI)
  show "pendingInv s'"
    unfolding pendingInv_iff
  proof (intro ballI, clarify)
    fix k b assume m: "(k, b) \<in> set (pendingCallApis s')"
    with sub have m0: "(k, b) \<in> set (pendingCallApis s)" by blast
    with inv have "b < length (heap s)" "sn (heap s ! b) = k" "\<not> isAborted (heap s ! b)"
      by (auto simp: pendingInv_iff)
    with len sn ab[OF m]
    show "b < length (heap s') \<and> sn (heap s' ! b) = k \<and> \<not> isAborted (heap s' ! b)" by simp
  qed
  show "length (heap s) \<le> length (heap s')" using len by simp
next
  fix b assume u: "unlinked s b"
  then show "unlinked s' b" using sub len by (auto simp: unlinked_def)
  from u have "b \<notin> snd ` set (pendingCallApis s)" by (simp add: unlinked_def)
  with ret[of b] reta show "returnsOf b (trace s') = returnsOf b (trace s)" by (cases "b = a") auto
next
  fix b
  show "returnsOf b (trace s') = returnsOf b (trace s) \<or>
         unlinked s' b \<and> (\<exists>ret. returnsOf b (trace s') = returnsOf b (trace s) @ [ret])"
  proof (cases "b = a")
    case False
    with ret show ?thesis by simp
  next
    case True
    from reta show ?thesis
    proof
      assume "returnsOf a (trace s') = returnsOf a (trace s)"
      with True show ?thesis by simp
    next
      assume h: "a \<in> snd ` set (pendingCallApis s) \<and> a \<notin> snd ` set (pendingCallApis s')
                   \<and> (\<exists>r. returnsOf a (trace s') = returnsOf a (trace s) @ [r])"
      then obtain k where "(k, a) \<in> set (pendingCallApis s)" by auto
      with inv have "a < length (heap s)" by (auto simp: pendingInv_iff)
      with h len True show ?thesis by (simp add: unlinked_def)
    qed
  qed
qed

lemma delete_not_linked:
  assumes inv: "pendingInv s" and f: "a < length (heap s)"
  shows "a \<notin> snd ` set (AList.delete (sn (heap s ! a)) (pendingCallApis s))"
proof
  assume "a \<in> snd ` set (AList.delete (sn (heap s ! a)) (pendingCallApis s))"
  then obtain k where m: "(k, a) \<in> set (pendingCallApis s)" and ne: "k \<noteq> sn (heap s ! a)"
    by (auto simp: set_delete)
  from inv m have "sn (heap s ! a) = k" by (auto simp: pendingInv_iff)
  with ne show False by simp
qed

lemma advance_invokeOnReturn:
  assumes inv: "pendingInv s" and look: "map_of (pendingCallApis s) k = Some a"
  shows "advance s (invokeOnReturn ret a s)"
proof -
  note f = pendingInv_lookup[OF inv look]
  have mem: "a \<in> snd ` set (pendingCallApis s)"
    using map_of_SomeD[OF look] by force
  show ?thesis
  proof (cases "onReturn (heap s ! a)")
    case False
    with f inv show ?thesis by (simp add: invokeOnReturn_def itemAt_def advance_refl)
  next
    case True
    let ?s' = "invokeOnReturn ret a s"
    have h: "heap ?s' = (heap s)[a := (heap s ! a)\<lparr>timer := None\<rparr>]"
      and p: "pendingCallApis ?s' = AList.delete (sn (heap s ! a)) (pendingCallApis s)"
      and t: "trace ?s' = trace s @ [OnReturn a ret]"
      using True f by (simp_all add: invokeOnReturn_def prim_defs)
    show ?thesis
    proof (rule advance_shrink[OF inv, where a = a])
      show "length (heap ?s') = length (heap s)" by (simp add: h)
      show "sn (heap ?s' ! b) = sn (heap s ! b)" if "b < length (heap s)" for b
        using that f(1) by (simp add: h nth_list_update)
      show "isAborted (heap ?s' ! b) = isAborted (heap s ! b)" for b
        using f by (simp add: h nth_list_update)
      show "set (pendingCallApis ?s') \<subseteq> set (pendingCallApis s)"
        by (auto simp: p set_delete)
      show "returnsOf b (trace ?s') = returnsOf b (trace s)" if "b \<noteq> a" for b
        using that by (simp add: t)
      show "returnsOf a (trace ?s') = returnsOf a (trace s)
            \<or> (a \<in> snd ` set (pendingCallApis s) \<and> a \<notin> snd ` set (pendingCallApis ?s')
                \<and> (\<exists>r. returnsOf a (trace ?s') = returnsOf a (trace s) @ [r]))"
        using mem delete_not_linked[OF inv f(1)] by (simp add: p t)
    qed
  qed
qed

lemma advance_forEachKey:
  assumes f: "\<And>k a s. pendingInv s \<Longrightarrow> map_of (pendingCallApis s) k = Some a \<Longrightarrow> advance s (f a s)"
    and inv: "pendingInv s"
  shows "advance s (forEachKey f ks s)"
  using inv
proof (induction ks arbitrary: s)
  case Nil
  then show ?case by (simp add: advance_refl)
next
  case (Cons k ks)
  show ?case
  proof (cases "map_of (pendingCallApis s) k")
    case None
    with Cons show ?thesis by simp
  next
    case (Some a)
    from f[OF Cons.prems Some] have 1: "advance s (f a s)" .
    then have "pendingInv (f a s)" by (simp add: advance_def)
    from Cons.IH[OF this] have "advance (f a s) (forEachKey f ks (f a s))" .
    with 1 Some show ?thesis by (auto intro: advance_trans)
  qed
qed

lemma advance_forEachPending:
  assumes "\<And>k a s. pendingInv s \<Longrightarrow> map_of (pendingCallApis s) k = Some a \<Longrightarrow> advance s (f a s)"
    and "pendingInv s"
  shows "advance s (forEachPending f s)"
  unfolding forEachPending_def using assms by (rule advance_forEachKey)

lemma advance_abort:
  assumes inv: "pendingInv s"
  shows "advance s (abort k s)"
proof (cases "map_of (pendingCallApis s) k")
  case None
  with inv show ?thesis by (simp add: abort_def advance_refl)
next
  case (Some a)
  note f = pendingInv_lookup[OF inv Some]
  let ?s' = "abort k s"
  have h: "heap ?s' = (heap s)[a := (heap s ! a)\<lparr>onReturn := False, isAborted := True\<rparr>]"
    and p: "pendingCallApis ?s' = AList.delete k (pendingCallApis s)"
    and t: "returnsOf b (trace ?s') = returnsOf b (trace s)" for b
    using Some f by (simp_all add: abort_def prim_defs)
  have nl: "a \<notin> snd ` set (AList.delete k (pendingCallApis s))"
    using delete_not_linked[OF inv f(1)] f(2) by simp
  show ?thesis
  proof (rule advance_shrink[OF inv, where a = a])
    show "length (heap ?s') = length (heap s)" by (simp add: h)
    show "sn (heap ?s' ! b) = sn (heap s ! b)" if "b < length (heap s)" for b
      using that f(1) by (simp add: h nth_list_update)
    show "isAborted (heap ?s' ! b) = isAborted (heap s ! b)"
      if "(k', b) \<in> set (pendingCallApis ?s')" for k' b
    proof -
      from that nl have "b \<noteq> a" by (force simp: p)
      then show ?thesis by (simp add: h)
    qed
    show "set (pendingCallApis ?s') \<subseteq> set (pendingCallApis s)"
      by (auto simp: p set_delete)
    show "returnsOf b (trace ?s') = returnsOf b (trace s)" if "b \<noteq> a" for b
      by (rule t)
    show "returnsOf a (trace ?s') = returnsOf a (trace s)
          \<or> (a \<in> snd ` set (pendingCallApis s) \<and> a \<notin> snd ` set (pendingCallApis ?s')
              \<and> (\<exists>r. returnsOf a (trace ?s') = returnsOf a (trace s) @ [r]))"
      by (simp add: t)
  qed
qed

lemma advance_waitApiReturn:
  assumes "pendingInv s"
  shows "advance s (waitApiReturn a timeout s)"
  using assms
  by (auto simp: waitApiReturn_def advance_refl split: option.splits intro!: advance_setItem)

lemma advance_waitTimerFire:
  assumes inv: "pendingInv s"
  shows "advance s (waitTimerFire a s)"
proof (cases "a < length (heap s) \<and> timer (heap s ! a) \<noteq> None")
  case False
  with inv show ?thesis by (auto simp: waitTimerFire_def itemAt_def advance_refl)
next
  case True
  let ?s' = "waitTimerFire a s"
  have h: "heap ?s' = (heap s)[a := (heap s ! a)\<lparr>timer := None\<rparr>]"
    and p: "pendingCallApis ?s' = AList.delete (sn (heap s ! a)) (pendingCallApis s)"
    and t: "returnsOf b (trace ?s') = returnsOf b (trace s)" for b
    using True by (auto simp add: waitTimerFire_def prim_defs)
  show ?thesis
  proof (rule advance_shrink[OF inv, where a = a])
    show "length (heap ?s') = length (heap s)" by (simp add: h)
    show "sn (heap ?s' ! b) = sn (heap s ! b)" if "b < length (heap s)" for b
      using that True by (simp add: h nth_list_update)
    show "isAborted (heap ?s' ! b) = isAborted (heap s ! b)" for b
      using True by (simp add: h nth_list_update)
    show "set (pendingCallApis ?s') \<subseteq> set (pendingCallApis s)"
      by (auto simp: p set_delete)
    show "returnsOf b (trace ?s') = returnsOf b (trace s)" if "b \<noteq> a" for b
      by (rule t)
    show "returnsOf a (trace ?s') = returnsOf a (trace s)
          \<or> (a \<in> snd ` set (pendingCallApis s) \<and> a \<notin> snd ` set (pendingCallApis ?s')
              \<and> (\<exists>r. returnsOf a (trace ?s') = returnsOf a (trace s) @ [r]))"
      by (simp add: t)
  qed
qed

lemma set_update_subset: "set (AList.update k v al) \<subseteq> insert (k, v) (set al)"
  by (induction al) auto

text \<open>allocating a new item and linking it\<close>

lemma advance_alloc:
  assumes inv: "pendingInv s"
    and h: "heap s' = heap s @ [item]" and ik: "sn item = k" and ia: "\<not> isAborted item"
    and p: "pendingCallApis s' = AList.update k (length (heap s)) (pendingCallApis s)"
    and t: "\<And>b. returnsOf b (trace s') = returnsOf b (trace s)"
  shows "advance s s'"
  unfolding advance_def
proof (intro conjI allI impI)
  have sub: "set (pendingCallApis s') \<subseteq> insert (k, length (heap s)) (set (pendingCallApis s))"
    unfolding p by (rule set_update_subset)
  show "pendingInv s'"
    unfolding pendingInv_iff
  proof (intro ballI, clarify)
    fix k' b assume "(k', b) \<in> set (pendingCallApis s')"
    with sub consider "k' = k" "b = length (heap s)" | "(k', b) \<in> set (pendingCallApis s)"
      by auto
    then show "b < length (heap s') \<and> sn (heap s' ! b) = k' \<and> \<not> isAborted (heap s' ! b)"
    proof cases
      case 1
      with h ik ia show ?thesis by simp
    next
      case 2
      with inv have "b < length (heap s)" "sn (heap s ! b) = k'" "\<not> isAborted (heap s ! b)"
        by (auto simp: pendingInv_iff)
      then show ?thesis by (simp add: h nth_append)
    qed
  qed
  show "length (heap s) \<le> length (heap s')" by (simp add: h)
  show "unlinked s' b" if "unlinked s b" for b
    using that sub by (auto simp: unlinked_def h)
  show "returnsOf b (trace s') = returnsOf b (trace s)" if "unlinked s b" for b
    by (rule t)
  show "returnsOf b (trace s') = returnsOf b (trace s) \<or>
         unlinked s' b \<and> (\<exists>ret. returnsOf b (trace s') = returnsOf b (trace s) @ [ret])" for b
    by (simp add: t)
qed

lemma advance_callApi:
  assumes inv: "pendingInv s"
  shows "advance s (callApi name r opts s)"
proof -
  obtain k c where g: "getNext False (callApiSn s) = (k, c)"
    by (cases "getNext False (callApiSn s)")
  show ?thesis
    by (rule advance_alloc[OF inv, where k = k])
       (simp_all add: callApi_def g logIf_def emit_def)+
qed

lemma sendTransportData_frame [simp]:
  "heap (snd (sendTransportData env td opts s)) = heap s"
  "pendingCallApis (snd (sendTransportData env td opts s)) = pendingCallApis s"
  "returnsOf a (trace (snd (sendTransportData env td opts s))) = returnsOf a (trace s)"
  "returned (trace (snd (sendTransportData env td opts s))) = returned (trace s)"
  by (simp_all add: send_defs prim_defs split: sum.splits option.splits)

lemma advance_sendTransportData:
  "pendingInv s \<Longrightarrow> advance s (snd (sendTransportData env td opts s))"
  by (rule advance_frame) simp_all

lemma advance_sendBoxResume:
  "pendingInv s \<Longrightarrow> advance s (snd (sendBoxResume env pre td s))"
  by (rule advance_frame) (simp_all add: send_defs prim_defs split: option.splits)

lemma advance_sendBoxEnd:
  "pendingInv s \<Longrightarrow> advance s (snd (sendBoxEnd opSend s))"
  by (rule advance_frame) (simp_all add: send_defs prim_defs)

lemma heartbeat_frame [simp]:
  "heap (recvHeartbeat env now n isReply s) = heap s"
  "pendingCallApis (recvHeartbeat env now n isReply s) = pendingCallApis s"
  "returnsOf a (trace (recvHeartbeat env now n isReply s)) = returnsOf a (trace s)"
  "heap (sendHeartbeat env now s) = heap s"
  "pendingCallApis (sendHeartbeat env now s) = pendingCallApis s"
  "returnsOf a (trace (sendHeartbeat env now s)) = returnsOf a (trace s)"
  "heap (resetHeartbeatTimeout s) = heap s"
  "pendingCallApis (resetHeartbeatTimeout s) = pendingCallApis s"
  "trace (resetHeartbeatTimeout s) = trace s"
  by (simp_all add: recvHeartbeat_def sendHeartbeat_def resetHeartbeatTimeout_def Let_def
               split: option.splits prod.splits)

lemma startHeartbeat_frame [simp]:
  "heap (startHeartbeat env now s) = heap s"
  "pendingCallApis (startHeartbeat env now s) = pendingCallApis s"
  "returnsOf a (trace (startHeartbeat env now s)) = returnsOf a (trace s)"
  by (simp_all add: startHeartbeat_def Let_def)

lemma advance_setStatus:
  "pendingInv s \<Longrightarrow> advance s (setStatus env now newStatus s)"
  by (rule advance_frame) (simp_all add: setStatus_def emit_def Let_def)

lemma advance_sendTimerFire:
  "pendingInv s \<Longrightarrow> advance s (sendTimerFire env now s)"
  by (rule advance_frame) (simp_all add: sendTimerFire_def split: option.splits)

lemma advance_recvMsgResume:
  "pendingInv s \<Longrightarrow> advance s (recvMsgResume pre svc body s)"
  by (rule advance_frame) (simp_all add: recvMsgResume_def emit_def)

lemma advance_recvData:
  "pendingInv s \<Longrightarrow> advance s (snd (recvData raw s))"
  by (rule advance_frame) (simp_all add: recvData_def prim_defs)

lemma advance_disconnectClear:
  "pendingInv s \<Longrightarrow> advance s (disconnectClear s)"
  by (rule advance_frame) (simp_all add: disconnectClear_def)

lemma advance_disconnectFinish:
  "pendingInv s \<Longrightarrow> advance s (snd (disconnectFinish isManual reason winner s))"
  by (rule advance_frame)
     (simp_all add: disconnectFinish_def prim_defs split: option.splits OpResultVoid.splits)

lemma advance_returnToPending:
  "pendingInv s \<Longrightarrow> advance s (returnToPending k apiReturn s)"
  by (auto simp: returnToPending_def advance_refl split: option.splits
           intro: advance_invokeOnReturn)

lemma advance_recvApiReturn:
  "pendingInv s \<Longrightarrow> advance s (recvApiReturn td s)"
  by (cases td)
     (auto simp: recvApiReturn_def advance_refl advance_returnToPending intro: advance_emit)

text \<open>
  The same facts relative to an arbitrary earlier state, in the form that chains through
  the segments of a method.
\<close>

lemma advance_then:
  assumes "advance s s1" and "pendingInv s1 \<Longrightarrow> advance s1 s2"
  shows "advance s s2"
  using assms by (meson advance_def advance_trans)

lemma advance_field_updates [simp]:
  "advance s0 (s\<lparr>remoteProtoInfo := x1\<rparr>) = advance s0 s"
  "advance s0 (s\<lparr>status := x2\<rparr>) = advance s0 s"
  "advance s0 (s\<lparr>disconnecting := x3\<rparr>) = advance s0 s"
  "advance s0 (s\<lparr>heartbeatState := x4\<rparr>) = advance s0 s"
  "advance s0 (s\<lparr>lastHeartbeatLatency := x5\<rparr>) = advance s0 s"
  by (simp_all add: advance_def unlinked_def pendingInv_def)

lemma adv_emit: "advance s0 s \<Longrightarrow> returned [e] = [] \<Longrightarrow> advance s0 (emit e s)"
  by (erule advance_then) (rule advance_emit)

lemma adv_logIf: "advance s0 s \<Longrightarrow> advance s0 (logIf b lvl tag s)"
  by (erule advance_then) (rule advance_logIf)

lemma adv_sendTransportData:
  "advance s0 s \<Longrightarrow> advance s0 (snd (sendTransportData env td opts s))"
  by (erule advance_then) (rule advance_sendTransportData)

lemma adv_recvApiReturn: "advance s0 s \<Longrightarrow> advance s0 (recvApiReturn td s)"
  by (erule advance_then) (rule advance_recvApiReturn)

lemma adv_recvHeartbeat: "advance s0 s \<Longrightarrow> advance s0 (recvHeartbeat env now n isReply s)"
  by (erule advance_then) (rule advance_frame, simp_all)

lemma adv_recvMsg: "advance s0 s \<Longrightarrow> advance s0 (recvMsg svc body s)"
  by (simp add: recvMsg_def adv_emit adv_logIf)

lemma adv_recvTransportData:
  "advance s0 s \<Longrightarrow> advance s0 (recvTransportData env now td s)"
  by (cases td)
     (auto simp: recvTransportData_def Let_def split: option.splits
           intro!: adv_emit adv_logIf adv_recvApiReturn adv_recvHeartbeat adv_recvMsg)

lemma adv_recvBox: "advance s0 s \<Longrightarrow> advance s0 (snd (recvBox env now box dt s))"
  by (auto simp: recvBox_def Let_def split: sum.splits prod.splits
           intro!: adv_emit adv_logIf adv_recvTransportData adv_sendTransportData)

lemma adv_recvDataResume:
  "advance s0 s \<Longrightarrow> advance s0 (snd (recvDataResume env now pre s))"
  by (auto simp: recvDataResume_def Let_def split: sum.splits prod.splits option.splits
           intro!: adv_emit adv_logIf adv_recvTransportData adv_sendTransportData adv_recvBox)

lemma adv_abort: "advance s0 s \<Longrightarrow> advance s0 (abort k s)"
  by (erule advance_then) (rule advance_abort)

lemma adv_waitApiReturn: "advance s0 s \<Longrightarrow> advance s0 (waitApiReturn a timeout s)"
  by (erule advance_then) (rule advance_waitApiReturn)

lemma adv_deletePending: "advance s0 s \<Longrightarrow> advance s0 (deletePending k s)"
  by (erule advance_then) (rule advance_deletePending)

lemma adv_forEachPending:
  assumes "\<And>k a s. pendingInv s \<Longrightarrow> map_of (pendingCallApis s) k = Some a \<Longrightarrow> advance s (f a s)"
    and "advance s0 s"
  shows "advance s0 (forEachPending f s)"
  using assms(2) by (rule advance_then) (rule advance_forEachPending[OF assms(1)])

lemma adv_abortByKey: "advance s0 s \<Longrightarrow> advance s0 (abortByKey key s)"
  unfolding abortByKey_def
  by (rule adv_forEachPending) (auto split: option.splits intro: advance_abort advance_refl)

lemma adv_abortAll: "advance s0 s \<Longrightarrow> advance s0 (abortAll s)"
  unfolding abortAll_def
  by (rule adv_forEachPending) (auto split: option.splits intro: advance_abort advance_refl)

lemma adv_doCallApi:
  "advance s0 s \<Longrightarrow> advance s0 (snd (doCallApi env svc r a opts s))"
  by (auto simp: doCallApi_def split: option.splits prod.splits intro!: adv_waitApiReturn)
     (metis adv_sendTransportData snd_conv)

lemma adv_callApiGotReturn:
  "advance s0 s \<Longrightarrow> advance s0 (snd (callApiGotReturn a ret s))"
  by (auto simp: callApiGotReturn_def split: option.splits intro!: adv_emit)

lemma adv_callApiPreCalled:
  "advance s0 s \<Longrightarrow> advance s0 (snd (callApiPreCalled env a preCall opts s))"
  by (auto simp: callApiPreCalled_def split: option.splits
           intro!: adv_abort adv_callApiGotReturn adv_doCallApi)

lemma adv_callApiEnd:
  "advance s0 s \<Longrightarrow> advance s0 (snd (callApiEnd a preReturn s))"
  by (auto simp: callApiEnd_def Let_def split: option.splits ApiReturn.splits TsrpcError.splits
           intro!: adv_abort adv_deletePending adv_emit)

lemma adv_disconnect:
  "advance s0 s \<Longrightarrow> advance s0 (snd (disconnect isManual reason s))"
  by (auto simp: disconnect_def Let_def stopHeartbeat_def
           intro!: adv_emit adv_forEachPending advance_invokeOnReturn)

lemma adv_recvTimeoutFire: "advance s0 s \<Longrightarrow> advance s0 (recvTimeoutFire s)"
  by (auto simp: recvTimeoutFire_def split: option.splits intro!: adv_disconnect)

lemma adv_step: "advance s0 s \<Longrightarrow> advance s0 (step env act s)"
proof (cases act)
  case (ActCallApi name r opts)
  then show "advance s0 s \<Longrightarrow> ?thesis"
    by (auto elim!: advance_then intro: advance_callApi)
qed (auto elim!: advance_then
          intro: advance_waitTimerFire advance_recvData advance_recvMsgResume
                 advance_sendTransportData advance_sendBoxResume advance_sendBoxEnd
                 advance_setStatus advance_disconnectFinish advance_disconnectClear
                 advance_sendTimerFire
                 adv_callApiPreCalled adv_callApiGotReturn adv_callApiEnd adv_abort
                 adv_abortByKey adv_abortAll adv_recvDataResume adv_disconnect
                 adv_recvTimeoutFire advance_refl)

lemma adv_run: "advance s0 s \<Longrightarrow> advance s0 (run env acts s)"
  by (induction acts arbitrary: s) (auto intro: adv_step)

subsection \<open>The pending map along a run\<close>

lemmas call_defs = callApi_def callApiPreCalled_def callApiGotReturn_def callApiEnd_def
  doCallApi_def doCallApiTransportData_def effectiveTimeout_def waitApiReturn_def
  waitTimerFire_def invokeOnReturn_def abort_def returnToPending_def recvApiReturn_def

lemmas recv_defs = recvTransportData_def recvDataResume_def recvData_def recvBox_def
  recvMsg_def recvMsgResume_def

lemmas disconnect_defs = disconnect_def disconnectFinish_def disconnectClear_def
  forEachPending_def lostConnError_def

lemma pendingInv_newConnection: "pendingInv (newConnection sd dt opts pinfo ceiling)"
  by (simp add: pendingInv_def newConnection_def)

lemma advance_run_new:
  "advance (newConnection sd dt opts pinfo ceiling)
     (run env acts (newConnection sd dt opts pinfo ceiling))"
  by (intro adv_run advance_refl pendingInv_newConnection)

lemma pendingInv_run_new: "pendingInv (run env acts (newConnection sd dt opts pinfo ceiling))"
  using advance_run_new[of sd dt opts pinfo ceiling env acts] by (simp add: advance_def)

lemma aborted_unlinked:
  assumes "pendingInv s" and "itemAt s a = Some item" and "isAborted item"
  shows "unlinked s a"
  using assms by (auto simp: unlinked_def itemAt_def pendingInv_iff split: if_splits)

subsection \<open>At most one return per pending call\<close>

text \<open>
  C4: in every run of a new connection the \<^verbatim>\<open>onReturn\<close> of a pending item runs at most
  once; once the item is aborted (\<^verbatim>\<open>isAborted\<close> set by \<^verbatim>\<open>abort\<close>) it never runs again,
  whatever happens afterwards; and in any state a \<^verbatim>\<open>res\<close> or \<^verbatim>\<open>err\<close> whose sn is absent
  from the pending map, or whose item is aborted, is dropped: a \<^verbatim>\<open>res\<close> changes nothing at
  all, an \<^verbatim>\<open>err\<close> runs no \<^verbatim>\<open>onReturn\<close> and leaves the map as it is (with sn 0 it is
  logged).
\<close>

theorem onReturn_at_most_once:
  "length (returnsOf a (trace (run env acts (newConnection sd dt opts pinfo ceiling)))) \<le> 1
   \<and> (itemAt (run env acts (newConnection sd dt opts pinfo ceiling)) a = Some item
        \<and> isAborted item \<longrightarrow>
        returnsOf a (trace (run env acts' (run env acts (newConnection sd dt opts pinfo ceiling))))
          = returnsOf a (trace (run env acts (newConnection sd dt opts pinfo ceiling))))
   \<and> (map_of (pendingCallApis s) k = None
        \<or> (map_of (pendingCallApis s) k = Some b \<and> itemAt s b = Some item' \<and> isAborted item')
        \<longrightarrow> recvApiReturn (TdRes svc k body pinfo') s = s
            \<and> returned (trace (recvApiReturn (TdErr k e pinfo') s)) = returned (trace s)
            \<and> pendingCallApis (recvApiReturn (TdErr k e pinfo') s) = pendingCallApis s)"
proof (intro conjI impI)
  let ?new = "newConnection sd dt opts pinfo ceiling"
  have "returnsOf a (trace ?new) = []" by (simp add: newConnection_def)
  with advance_run_new[of sd dt opts pinfo ceiling env acts]
  show "length (returnsOf a (trace (run env acts ?new))) \<le> 1"
    unfolding advance_def
    by (metis append_Nil le_numeral_extra(4) length_Cons list.size(3) zero_le One_nat_def)
next
  let ?s1 = "run env acts (newConnection sd dt opts pinfo ceiling)"
  assume h: "itemAt ?s1 a = Some item \<and> isAborted item"
  have inv: "pendingInv ?s1" by (rule pendingInv_run_new)
  with h have "unlinked ?s1 a" by (auto intro: aborted_unlinked)
  moreover have "advance ?s1 (run env acts' ?s1)"
    by (intro adv_run advance_refl inv)
  ultimately show "returnsOf a (trace (run env acts' ?s1)) = returnsOf a (trace ?s1)"
    by (simp add: advance_def)
next
  assume "map_of (pendingCallApis s) k = None
        \<or> (map_of (pendingCallApis s) k = Some b \<and> itemAt s b = Some item' \<and> isAborted item')"
  then show "recvApiReturn (TdRes svc k body pinfo') s = s"
    and "returned (trace (recvApiReturn (TdErr k e pinfo') s)) = returned (trace s)"
    and "pendingCallApis (recvApiReturn (TdErr k e pinfo') s) = pendingCallApis s"
    by (auto simp: recvApiReturn_def returnToPending_def emit_def)
qed


lemmas eval_defs = call_defs recv_defs disconnect_defs send_defs heartbeat_defs prim_defs
  example_defs exampleAbortedCall_def exampleReply_def exampleRepliedTwice_def
  exampleWaitingCall_def exampleUnsentCall_def exampleCallWhileDisconnected_def

theorem onReturn_at_most_once_witness:
  "returnsOf 0 (trace (run exampleCodec [exampleReply]
                         (run exampleCodec exampleAbortedCall exampleClient))) = []
   \<and> recvApiReturn (TdRes None 7 ''late'' None) exampleClient = exampleClient"
proof -
  let ?s1 = "run exampleCodec exampleAbortedCall exampleClient"
  have h: "itemAt ?s1 0 = Some (heap ?s1 ! 0) \<and> isAborted (heap ?s1 ! 0)"
    by (simp add: eval_defs)
  have r: "returnsOf 0 (trace ?s1) = []"
    by (simp add: eval_defs)
  have n: "map_of (pendingCallApis exampleClient) 7 = None"
    by (simp add: example_defs)
  note t = onReturn_at_most_once
    [where env = exampleCodec and acts = exampleAbortedCall and acts' = "[exampleReply]"
       and sd = Client and dt = DataText and opts = defaultBaseConnectionOptions
       and pinfo = exampleProtoInfo and ceiling = 2147483647 and a = 0
       and item = "heap ?s1 ! 0" and s = exampleClient and k = 7 and svc = None
       and body = "''late''" and pinfo' = None, folded exampleClient_def]
  from t h r n show ?thesis by simp
qed

text \<open>A reply that arrives twice is handed to the call once.\<close>

lemma reply_twice_returns_once:
  "returnsOf 0 (trace (run exampleCodec exampleRepliedTwice exampleClient)) = [ApiSucc ''pong'']"
  by (simp add: eval_defs)

subsection \<open>Calling disconnect in each status\<close>

lemma disconnect_in_flight: "disconnecting s \<Longrightarrow> disconnect isManual reason s = (TheDisconnecting, s)"
  by (simp add: disconnect_def)

lemma disconnect_proceeds_flag:
  assumes "status s = Connected" and "\<not> disconnecting s"
  shows "fst (disconnect isManual reason s) = TheDisconnecting"
    and "disconnecting (snd (disconnect isManual reason s))"
  using assms by (simp_all add: disconnect_def Let_def)

text \<open>
  C8 as stated (a call while the status is \<^verbatim>\<open>Disconnecting\<close> returns a failed result) fails
  on the code: after \<^verbatim>\<open>disconnect\<close> on a connected client the status is \<^verbatim>\<open>Disconnecting\<close>,
  and a second call returns the promise in flight, not a failed result.
\<close>

theorem disconnect_while_disconnecting_counterexample:
  "status (snd (disconnect True None connectedClient)) = Disconnecting
   \<and> fst (disconnect True None (snd (disconnect True None connectedClient))) = TheDisconnecting"
  using connectedClient_status
  by (simp add: disconnect_proceeds_status disconnect_in_flight disconnect_proceeds_flag)

text \<open>
  C8, amended: while a disconnect is in flight (\<^verbatim>\<open>_disconnecting\<close> set) every call returns
  that promise and changes nothing, whatever the status. When none is in flight: from
  \<^verbatim>\<open>Disconnected\<close> the call succeeds and changes nothing; from \<^verbatim>\<open>Connecting\<close> or
  \<^verbatim>\<open>Disconnecting\<close> it returns the failed result with the message naming the current
  status and changes nothing; from \<^verbatim>\<open>Connected\<close> it proceeds: the status becomes
  \<^verbatim>\<open>Disconnecting\<close> and the new promise is stored and returned.
\<close>

theorem disconnect_by_flight_then_status:
  "(disconnecting s \<longrightarrow> disconnect isManual reason s = (TheDisconnecting, s))
   \<and> (\<not> disconnecting s \<and> status s = Disconnected \<longrightarrow>
        disconnect isManual reason s = (Result OpSucc, s))
   \<and> (\<not> disconnecting s \<and> (status s = Connecting \<or> status s = Disconnecting) \<longrightarrow>
        disconnect isManual reason s = (Result (OpFail (disconnectErrMsg s)), s))
   \<and> (\<not> disconnecting s \<and> status s = Connected \<longrightarrow>
        fst (disconnect isManual reason s) = TheDisconnecting
        \<and> status (snd (disconnect isManual reason s)) = Disconnecting
        \<and> disconnecting (snd (disconnect isManual reason s)))"
  by (auto simp: disconnect_in_flight disconnect_proceeds_status disconnect_proceeds_flag)
     (simp_all add: disconnect_def)

theorem disconnect_by_flight_then_status_witness:
  "disconnect True None (snd (disconnect True None connectedClient))
     = (TheDisconnecting, snd (disconnect True None connectedClient))
   \<and> disconnect True None exampleClient = (Result OpSucc, exampleClient)
   \<and> disconnect True None (exampleClient\<lparr>status := Connecting\<rparr>)
       = (Result (OpFail (''You can only call '' @ dquote @ ''disconnect'' @ dquote
             @ '' if the client status is '' @ dquote @ ''Connected'' @ dquote
             @ '' (the current status is '' @ dquote @ ''Connecting'' @ dquote @ '')'')),
          exampleClient\<lparr>status := Connecting\<rparr>)
   \<and> fst (disconnect True None connectedClient) = TheDisconnecting
   \<and> status (snd (disconnect True None connectedClient)) = Disconnecting"
proof -
  let ?d = "snd (disconnect True None connectedClient)"
  let ?c = "exampleClient\<lparr>status := Connecting\<rparr>"
  have 1: "disconnecting ?d"
    using connectedClient_status by (simp add: disconnect_proceeds_flag)
  have 2: "\<not> disconnecting exampleClient \<and> status exampleClient = Disconnected"
    by (simp add: exampleClient_status)
  have 3: "\<not> disconnecting ?c \<and> (status ?c = Connecting \<or> status ?c = Disconnecting)"
    by (simp add: exampleClient_status)
  have 4: "\<not> disconnecting connectedClient \<and> status connectedClient = Connected"
    by (simp add: connectedClient_status)
  have m: "disconnectErrMsg ?c = ''You can only call '' @ dquote @ ''disconnect'' @ dquote
             @ '' if the client status is '' @ dquote @ ''Connected'' @ dquote
             @ '' (the current status is '' @ dquote @ ''Connecting'' @ dquote @ '')''"
    by (simp add: disconnectErrMsg_def connName_def example_defs)
  from disconnect_by_flight_then_status[of ?d True None] 1
  have a: "disconnect True None ?d = (TheDisconnecting, ?d)" by blast
  from disconnect_by_flight_then_status[of exampleClient True None] 2
  have b: "disconnect True None exampleClient = (Result OpSucc, exampleClient)" by blast
  from disconnect_by_flight_then_status[of ?c True None] 3
  have c: "disconnect True None ?c = (Result (OpFail (disconnectErrMsg ?c)), ?c)" by blast
  from disconnect_by_flight_then_status[of connectedClient True None] 4
  have d: "fst (disconnect True None connectedClient) = TheDisconnecting
           \<and> status (snd (disconnect True None connectedClient)) = Disconnecting" by blast
  from a b c d m show ?thesis by simp
qed

subsection \<open>Failing the pending calls on disconnect\<close>

lemma invokeOnReturn_linked:
  assumes inv: "pendingInv s" and look: "map_of (pendingCallApis s) k = Some a"
  shows "invokeOnReturn ret a s =
           (if onReturn (heap s ! a)
            then s\<lparr>heap := (heap s)[a := (heap s ! a)\<lparr>timer := None\<rparr>],
                   pendingCallApis := AList.delete k (pendingCallApis s),
                   trace := trace s @ [OnReturn a ret]\<rparr>
            else s)"
  using pendingInv_lookup[OF inv look] by (simp add: invokeOnReturn_def prim_defs)

lemma forEachKey_invoke_subset:
  "set (pendingCallApis (forEachKey (invokeOnReturn ret) ks s)) \<subseteq> set (pendingCallApis s)"
proof (rule forEachKey_preserves[where P = "\<lambda>s'. set (pendingCallApis s') \<subseteq> set (pendingCallApis s)"])
  show "set (pendingCallApis (invokeOnReturn ret a s')) \<subseteq> set (pendingCallApis s)"
    if "set (pendingCallApis s') \<subseteq> set (pendingCallApis s)" for a s'
    using that
    by (auto simp: invokeOnReturn_def prim_defs set_delete split: option.splits)
qed simp

lemma forEachKey_invoke_unlinked:
  assumes inv: "pendingInv s" and u: "unlinked s a"
  shows "returnsOf a (trace (forEachKey (invokeOnReturn ret) ks s)) = returnsOf a (trace s)"
proof -
  have "advance s (forEachKey (invokeOnReturn ret) ks s)"
    using inv by (intro advance_forEachKey advance_invokeOnReturn)
  with u show ?thesis by (simp add: advance_def)
qed

lemma forEachKey_invoke_target:
  assumes "pendingInv s" and "map_of (pendingCallApis s) k = Some a"
  shows "(if k \<in> set ks \<and> onReturn (heap s ! a)
          then returnsOf a (trace (forEachKey (invokeOnReturn ret) ks s))
                 = returnsOf a (trace s) @ [ret]
               \<and> map_of (pendingCallApis (forEachKey (invokeOnReturn ret) ks s)) k = None
          else returnsOf a (trace (forEachKey (invokeOnReturn ret) ks s)) = returnsOf a (trace s)
               \<and> map_of (pendingCallApis (forEachKey (invokeOnReturn ret) ks s)) k = Some a)"
  using assms
proof (induction ks arbitrary: s)
  case Nil
  then show ?case by simp
next
  case (Cons k' ks)
  note inv = Cons.prems(1) and look = Cons.prems(2)
  note f = pendingInv_lookup[OF inv look]
  let ?f = "invokeOnReturn ret"
  show ?case
  proof (cases "map_of (pendingCallApis s) k'")
    case None
    then have "k' \<noteq> k" using look by auto
    with None Cons.IH[OF inv look] show ?thesis by simp
  next
    case (Some a')
    let ?s1 = "?f a' s"
    have adv: "advance s ?s1" by (rule advance_invokeOnReturn[OF inv Some])
    then have inv1: "pendingInv ?s1" by (simp add: advance_def)
    note e = invokeOnReturn_linked[OF inv Some, of ret]
    show ?thesis
    proof (cases "k' = k")
      case True
      with Some look have aa: "a' = a" by simp
      show ?thesis
      proof (cases "onReturn (heap s ! a)")
        case False
        with e aa have "?s1 = s" by simp
        with Some False Cons.IH[OF inv look] show ?thesis by simp
      next
        case on: True
        note ea = e[unfolded aa]
        have tr: "returnsOf a (trace (?f a s)) = returnsOf a (trace s) @ [ret]"
          and pe: "pendingCallApis (?f a s) = AList.delete k (pendingCallApis s)"
          and he: "length (heap (?f a s)) = length (heap s)"
          using ea on True by simp_all
        have inv1': "pendingInv (?f a s)" using inv1 aa by simp
        have "unlinked (?f a s) a"
          using delete_not_linked[OF inv f(1)] f by (simp add: unlinked_def pe he)
        then have r: "returnsOf a (trace (forEachKey ?f ks (?f a s))) = returnsOf a (trace (?f a s))"
          by (rule forEachKey_invoke_unlinked[OF inv1'])
        have "k \<notin> fst ` set (pendingCallApis (?f a s))"
          by (simp add: pe delete_notin_dom)
        with forEachKey_invoke_subset[of ret ks "?f a s"]
        have "k \<notin> fst ` set (pendingCallApis (forEachKey ?f ks (?f a s)))" by blast
        then have "map_of (pendingCallApis (forEachKey ?f ks (?f a s))) k = None"
          by (simp add: map_of_eq_None_iff)
        with r tr on True Some aa show ?thesis by simp
      qed
    next
      case False
      have ne: "a' \<noteq> a"
        using pendingInv_lookup(2)[OF inv Some] f(2) False by auto
      have look1: "map_of (pendingCallApis ?s1) k = Some a"
        using look False by (simp add: e)
      have h1: "onReturn (heap ?s1 ! a) = onReturn (heap s ! a)"
        using ne by (simp add: e)
      have t1: "returnsOf a (trace ?s1) = returnsOf a (trace s)"
        using ne by (simp add: e)
      from Cons.IH[OF inv1 look1] h1 t1 False Some show ?thesis by simp
    qed
  qed
qed


lemma forEachKey_invoke_no_flow:
  "\<exists>evs. trace (forEachKey (invokeOnReturn ret) ks s) = trace s @ evs
         \<and> FlowExec fl \<notin> set evs"
proof (rule forEachKey_preserves
         [where P = "\<lambda>s'. \<exists>evs. trace s' = trace s @ evs \<and> FlowExec fl \<notin> set evs"])
  show "\<exists>evs. trace (invokeOnReturn ret a s') = trace s @ evs \<and> FlowExec fl \<notin> set evs"
    if "\<exists>evs. trace s' = trace s @ evs \<and> FlowExec fl \<notin> set evs" for a s'
    using that by (auto simp: invokeOnReturn_def prim_defs split: option.splits)
qed simp

text \<open>
  C2 as stated (every call pending when the connection enters \<^verbatim>\<open>Disconnecting\<close> receives
  the \<^verbatim>\<open>LOST_CONN\<close> return) fails on the code: a call that is registered in the pending
  map but still waits in the \<^verbatim>\<open>preCallApiFlow\<close> has no \<^verbatim>\<open>onReturn\<close> yet, and
  \<^verbatim>\<open>v.onReturn?.(...)\<close> passes it by. It receives nothing, up to and including the
  \<^verbatim>\<open>postDisconnectFlow\<close>.
\<close>

theorem disconnect_skips_unsent_call_counterexample:
  "status (run exampleCodec exampleUnsentCall exampleClient) = Connected
   \<and> map_of (pendingCallApis (run exampleCodec exampleUnsentCall exampleClient)) 1 = Some 0
   \<and> returnsOf 0
        (trace (snd (disconnectFinish True None (Some OpSucc)
                       (snd (disconnect True None
                               (run exampleCodec exampleUnsentCall exampleClient)))))) = []
   \<and> last (trace (snd (disconnectFinish True None (Some OpSucc)
                         (snd (disconnect True None
                                 (run exampleCodec exampleUnsentCall exampleClient))))))
       = FlowExec PostDisconnectFlow"
  by (simp add: eval_defs)

text \<open>Such a call fails later with a local error, when its request cannot be sent.\<close>

lemma unsent_call_fails_locally:
  "doCallApiSent
     (case fst (doCallApi exampleCodec ''Echo'' ''x'' 0 None
                  (snd (disconnect True None (run exampleCodec exampleUnsentCall exampleClient))))
      of Done opSend \<Rightarrow> opSend | _ \<Rightarrow> OpSucc)
   = Done (ApiFail (TsrpcError ''The connection is not connected'' LocalError None))"
  by (simp add: eval_defs doCallApiSent_def)

text \<open>
  C2, amended: when \<^verbatim>\<open>_disconnect\<close> proceeds (status \<^verbatim>\<open>Connected\<close>, none in flight), every
  pending call whose \<^verbatim>\<open>onReturn\<close> is installed (it has reached \<^verbatim>\<open>_waitApiReturn\<close>) receives
  exactly one return, \<^verbatim>\<open>{isSucc: false, err: {type: NetworkError, code: 'LOST_CONN'}}\<close>,
  and leaves the pending map; a pending call without \<^verbatim>\<open>onReturn\<close> receives nothing and
  stays in the map. All this happens in the segment that sets \<^verbatim>\<open>Disconnecting\<close>, in which
  no \<^verbatim>\<open>postDisconnectFlow\<close> runs; that flow is the last thing the later segment does, and
  that segment hands out no return.
\<close>

theorem disconnect_fails_waiting_calls:
  assumes "status s = Connected" and "\<not> disconnecting s" and "pendingInv s"
    and "map_of (pendingCallApis s) k = Some a"
  shows "(if onReturn (heap s ! a)
          then returnsOf a (trace (snd (disconnect isManual reason s)))
                 = returnsOf a (trace s) @ [ApiFail (lostConnError reason)]
               \<and> map_of (pendingCallApis (snd (disconnect isManual reason s))) k = None
          else returnsOf a (trace (snd (disconnect isManual reason s))) = returnsOf a (trace s)
               \<and> map_of (pendingCallApis (snd (disconnect isManual reason s))) k = Some a)
         \<and> FlowExec PostDisconnectFlow
             \<notin> set (drop (length (trace s)) (trace (snd (disconnect isManual reason s))))
         \<and> last (trace (snd (disconnectFinish isManual reason winner
                               (snd (disconnect isManual reason s)))))
             = FlowExec PostDisconnectFlow
         \<and> returnsOf a (trace (snd (disconnectFinish isManual reason winner
                                       (snd (disconnect isManual reason s)))))
             = returnsOf a (trace (snd (disconnect isManual reason s)))"
proof -
  let ?ret = "ApiFail (lostConnError reason)"
  let ?s2 = "stopHeartbeat (s\<lparr>status := Disconnecting\<rparr>)"
  let ?ks = "map fst (pendingCallApis ?s2)"
  let ?loop = "forEachKey (invokeOnReturn ?ret) ?ks ?s2"
  have d: "snd (disconnect isManual reason s)
             = (emit (DoDisconnect isManual reason) ?loop)\<lparr>disconnecting := True\<rparr>"
    using assms(1,2) by (simp add: disconnect_def forEachPending_def Let_def)
  have inv2: "pendingInv ?s2" using assms(3) by (simp add: pendingInv_def stopHeartbeat_def)
  have look2: "map_of (pendingCallApis ?s2) k = Some a"
    using assms(4) by (simp add: stopHeartbeat_def)
  have kin: "k \<in> set ?ks"
    using map_of_SomeD[OF look2] by force
  have same: "heap ?s2 = heap s" "trace ?s2 = trace s"
    by (simp_all add: stopHeartbeat_def)
  from forEachKey_invoke_target[OF inv2 look2, of ?ks ?ret] kin same
  have 1: "(if onReturn (heap s ! a)
            then returnsOf a (trace ?loop) = returnsOf a (trace s) @ [?ret]
                 \<and> map_of (pendingCallApis ?loop) k = None
            else returnsOf a (trace ?loop) = returnsOf a (trace s)
                 \<and> map_of (pendingCallApis ?loop) k = Some a)"
    by simp
  obtain evs where evs: "trace ?loop = trace s @ evs" "FlowExec PostDisconnectFlow \<notin> set evs"
    using forEachKey_invoke_no_flow[of ?ret ?ks ?s2 PostDisconnectFlow] same by auto
  have 2: "FlowExec PostDisconnectFlow
             \<notin> set (drop (length (trace s)) (trace (snd (disconnect isManual reason s))))"
    by (simp add: d emit_def evs)
  have 3: "last (trace (snd (disconnectFinish isManual reason winner s'))) = FlowExec PostDisconnectFlow"
    and 4: "returnsOf a (trace (snd (disconnectFinish isManual reason winner s')))
              = returnsOf a (trace s')" for s'
    by (simp_all add: disconnectFinish_def prim_defs split: option.splits OpResultVoid.splits)
  from 1 2 3 4 show ?thesis by (simp add: d emit_def)
qed

theorem disconnect_fails_waiting_calls_witness:
  "returnsOf 0 (trace (snd (disconnect True None
                              (run exampleCodec exampleWaitingCall exampleClient))))
     = [ApiFail (TsrpcError ''Disconnected to server'' NetworkError (Some ''LOST_CONN''))]
   \<and> map_of (pendingCallApis (snd (disconnect True None
                (run exampleCodec exampleWaitingCall exampleClient)))) 1 = None"
proof -
  let ?s = "run exampleCodec exampleWaitingCall exampleClient"
  have h: "status ?s = Connected" "\<not> disconnecting ?s" "map_of (pendingCallApis ?s) 1 = Some 0"
    and on: "onReturn (heap ?s ! 0)" and r: "returnsOf 0 (trace ?s) = []"
    by (simp_all add: eval_defs)
  have inv: "pendingInv ?s"
    unfolding exampleClient_def by (rule pendingInv_run_new)
  from disconnect_fails_waiting_calls[OF h(1,2) inv h(3), of True None] on r
  show ?thesis by (simp add: lostConnError_def)
qed


text \<open>In a run of a new connection a call that is still in the pending map has had no return.\<close>

lemma linked_has_no_return:
  assumes "map_of (pendingCallApis (run env acts (newConnection sd dt opts pinfo ceiling))) k = Some a"
  shows "returnsOf a (trace (run env acts (newConnection sd dt opts pinfo ceiling))) = []"
proof -
  let ?new = "newConnection sd dt opts pinfo ceiling"
  have "a \<in> snd ` set (pendingCallApis (run env acts ?new))"
    using map_of_SomeD[OF assms] by force
  then have "\<not> unlinked (run env acts ?new) a" by (simp add: unlinked_def)
  moreover have "returnsOf a (trace ?new) = []" by (simp add: newConnection_def)
  ultimately show ?thesis
    using advance_run_new[of sd dt opts pinfo ceiling env acts] unfolding advance_def by metis
qed

subsection \<open>The timeout of a call\<close>

lemma logIf_options [simp]: "options (logIf b lvl tag s) = options s"
  by (simp add: logIf_def emit_def)

lemma emit_options [simp]: "options (emit e s) = options s"
  by (simp add: emit_def)

lemma sendBox_options [simp]:
  "options (snd (sendBox env box dt td s)) = options s"
  by (simp add: sendBox_def Let_def split: sum.splits)

lemma sendTransportData_options [simp]:
  "options (snd (sendTransportData env td opts s)) = options s"
  by (simp add: sendTransportData_def Let_def split: sum.splits)

lemma doCallApi_arms_timer:
  assumes "itemAt s a = Some item"
  shows "itemAt (snd (doCallApi env svc r a opts s)) a
           = Some (item\<lparr>onReturn := True,
                        timer := (if effectiveTimeout opts s = 0 then None
                                  else Some (effectiveTimeout opts s))\<rparr>)"
proof -
  let ?s1 = "snd (sendTransportData env (doCallApiTransportData svc r item s) opts s)"
  have d: "snd (doCallApi env svc r a opts s) = waitApiReturn a (effectiveTimeout opts ?s1) ?s1"
    using assms by (simp add: doCallApi_def split: prod.splits)
  have t: "effectiveTimeout opts ?s1 = effectiveTimeout opts s"
    by (simp add: effectiveTimeout_def split: option.splits)
  from assms have al: "a < length (heap s)" and it: "heap s ! a = item"
    by (simp_all add: itemAt_def split: if_splits)
  show ?thesis
    unfolding d t using al it by (simp add: waitApiReturn_def itemAt_def setItem_def)
qed

lemma waitResult_append:
  "waitResult a (es @ es')
     = (case waitResult a es of None \<Rightarrow> waitResult a es' | Some ret \<Rightarrow> Some ret)"
  by (induction a es rule: waitResult.induct) simp_all

lemma waitTimerFire_armed:
  assumes "itemAt s a = Some item" and "timer item \<noteq> None"
  shows "waitTimerFire a s
           = s\<lparr>heap := (heap s)[a := item\<lparr>timer := None\<rparr>],
                pendingCallApis := AList.delete (sn item) (pendingCallApis s),
                trace := trace s @ [TimeoutReturn a (ApiFail timeoutError)]\<rparr>"
  using assms by (auto simp: waitTimerFire_def prim_defs)

lemma callApiFinish_still_waiting:
  assumes "waitResult a (trace s) = None"
  shows "callApiFinish a OpSucc flw s = (Await, s)"
  using assms by (simp add: callApiFinish_def doCallApiFinish_def doCallApiSent_def)

lemma callApiFinish_send_failed:
  assumes "itemAt s a = Some item" and "\<not> isAborted item"
  shows "fst (callApiFinish a (OpFail m) flw s)
           = (case flw (ApiFail (TsrpcError m LocalError None)) of
                None \<Rightarrow> Aborted
              | Some ret \<Rightarrow> Done ret)"
proof -
  have i: "itemAt (emit (FlowExec PreCallApiReturnFlow) s) a = Some item"
    using assms(1) by (simp add: itemAt_def emit_def split: if_splits)
  show ?thesis
    using assms i
    by (simp add: callApiFinish_def doCallApiFinish_def doCallApiSent_def callApiGotReturn_def
                  callApiEnd_def Let_def split: option.splits)
qed

lemma callApiFinish_flow_canceled_example:
  "fst (callApiFinish 0 OpSucc Map.empty
          (waitTimerFire 0 (run exampleCodec exampleWaitingCall exampleClient))) = Aborted"
  by (simp add: eval_defs callApiFinish_def doCallApiFinish_def doCallApiSent_def
                doCallApiReturned_def timeoutError_def)

text \<open>
  C5 as stated (when no matching return arrives within the effective timeout, \<^verbatim>\<open>callApi\<close>
  resolves to the \<^verbatim>\<open>TIMEOUT\<close> error) fails on the code for a call made while the connection
  is not connected: \<^verbatim>\<open>_doCallApi\<close> arms the timer of 15000 ms all the same, the send fails
  at once, no return ever arrives, and \<^verbatim>\<open>callApi\<close> resolves with the local error of the send,
  before the timer fires as well as after it has fired.
\<close>

theorem call_timeout_send_failed_counterexample:
  "fst (doCallApi exampleCodec ''Echo'' ''x'' 0 None (callApi ''Echo'' ''x'' None exampleClient))
     = Done (OpFail ''The connection is not connected'')
   \<and> map_option timer (itemAt (run exampleCodec exampleCallWhileDisconnected exampleClient) 0)
       = Some (Some 15000)
   \<and> waitResult 0 (trace (run exampleCodec exampleCallWhileDisconnected exampleClient)) = None
   \<and> fst (callApiFinish 0 (OpFail ''The connection is not connected'') Some
             (run exampleCodec exampleCallWhileDisconnected exampleClient))
       = Done (ApiFail (TsrpcError ''The connection is not connected'' LocalError None))
   \<and> returnsOf 0 (trace (waitTimerFire 0
                            (run exampleCodec exampleCallWhileDisconnected exampleClient))) = []
   \<and> fst (callApiFinish 0 (OpFail ''The connection is not connected'') Some
             (waitTimerFire 0 (run exampleCodec exampleCallWhileDisconnected exampleClient)))
       = Done (ApiFail (TsrpcError ''The connection is not connected'' LocalError None))"
  by (simp add: eval_defs callApiFinish_def doCallApiFinish_def doCallApiSent_def
                doCallApiReturned_def timeoutError_def)

text \<open>
  C5: the timer of a call is armed with \<^verbatim>\<open>options.timeout ?? options.callApiTimeout\<close>, and
  not at all when that value is 0 (then no timer callback can run). For a call that is not
  aborted, whose timer is armed and whose promise of \<^verbatim>\<open>_waitApiReturn\<close> has not resolved (no
  matching return arrived): \<^verbatim>\<open>callApi\<close> is still waiting; when the timer fires, that promise
  resolves with the \<^verbatim>\<open>TIMEOUT\<close> error and the item leaves the pending map, so that a \<^verbatim>\<open>res\<close>
  or \<^verbatim>\<open>err\<close> that arrives for its sn afterwards is dropped; if the send succeeded,
  \<^verbatim>\<open>_doCallApi\<close> then returns that error and \<^verbatim>\<open>callApi\<close> resolves with what the
  \<^verbatim>\<open>preCallApiReturnFlow\<close> makes of it: with the \<^verbatim>\<open>TIMEOUT\<close> error itself when the flow hands
  it on (after the flow has run, the error has been logged if \<^verbatim>\<open>logApi\<close> is set, and the entry
  is deleted), with the flow's replacement otherwise, and not at all when the flow is
  canceled. If the send failed, \<^verbatim>\<open>callApi\<close> resolves likewise with the local error of the send,
  without waiting for the timer.
\<close>

theorem call_timeout_when_sent:
  "effectiveTimeout None s = callApiTimeout (options s)
   \<and> effectiveTimeout (Some (opt\<lparr>optTimeout := None\<rparr>)) s = callApiTimeout (options s)
   \<and> effectiveTimeout (Some (opt\<lparr>optTimeout := Some t\<rparr>)) s = t
   \<and> (itemAt s a = Some item \<longrightarrow>
        itemAt (snd (doCallApi env svc r a opts s)) a
          = Some (item\<lparr>onReturn := True,
                       timer := (if effectiveTimeout opts s = 0 then None
                                 else Some (effectiveTimeout opts s))\<rparr>))
   \<and> (itemAt s a = Some item \<and> timer item = None \<longrightarrow> waitTimerFire a s = s)
   \<and> (itemAt s a = Some item \<and> timer item \<noteq> None \<and> \<not> isAborted item
        \<and> waitResult a (trace s) = None \<longrightarrow>
        callApiFinish a OpSucc flw s = (Await, s)
        \<and> trace (waitTimerFire a s) = trace s @ [TimeoutReturn a (ApiFail timeoutError)]
        \<and> timeoutError = TsrpcError ''Request Timeout'' NetworkError (Some ''TIMEOUT'')
        \<and> waitResult a (trace (waitTimerFire a s)) = Some (ApiFail timeoutError)
        \<and> map_of (pendingCallApis (waitTimerFire a s)) (sn item) = None
        \<and> recvApiReturn (TdRes svc' (sn item) body pinfo) (waitTimerFire a s) = waitTimerFire a s
        \<and> returned (trace (recvApiReturn (TdErr (sn item) e pinfo) (waitTimerFire a s)))
            = returned (trace (waitTimerFire a s))
        \<and> doCallApiFinish a OpSucc (waitTimerFire a s) = Done (ApiFail timeoutError)
        \<and> callApiFinish a OpSucc Some (waitTimerFire a s)
            = (Done (ApiFail timeoutError),
               deletePending (sn item)
                 (logIf (logApi (options s)) LError ''[callApi] [Err]''
                    (emit (FlowExec PreCallApiReturnFlow) (waitTimerFire a s))))
        \<and> fst (callApiFinish a OpSucc flw (waitTimerFire a s))
            = (case flw (ApiFail timeoutError) of None \<Rightarrow> Aborted | Some ret \<Rightarrow> Done ret)
        \<and> map_of (pendingCallApis (snd (callApiFinish a OpSucc flw (waitTimerFire a s))))
            (sn item) = None
        \<and> fst (callApiFinish a (OpFail m) flw s)
            = (case flw (ApiFail (TsrpcError m LocalError None)) of
                 None \<Rightarrow> Aborted
               | Some ret \<Rightarrow> Done ret))"
proof (intro conjI impI)
  assume h: "itemAt s a = Some item \<and> timer item \<noteq> None \<and> \<not> isAborted item
             \<and> waitResult a (trace s) = None"
  let ?s1 = "waitTimerFire a s"
  from h have al: "a < length (heap s)" and it: "heap s ! a = item"
    by (auto simp: itemAt_def split: if_splits)
  from h have s1: "?s1 = s\<lparr>heap := (heap s)[a := item\<lparr>timer := None\<rparr>],
                      pendingCallApis := AList.delete (sn item) (pendingCallApis s),
                      trace := trace s @ [TimeoutReturn a (ApiFail timeoutError)]\<rparr>"
    by (simp add: waitTimerFire_armed)
  from h show "callApiFinish a OpSucc flw s = (Await, s)"
    by (simp add: callApiFinish_still_waiting)
  from h show "fst (callApiFinish a (OpFail m) flw s)
                 = (case flw (ApiFail (TsrpcError m LocalError None)) of
                      None \<Rightarrow> Aborted
                    | Some ret \<Rightarrow> Done ret)"
    by (simp add: callApiFinish_send_failed)
  show "trace ?s1 = trace s @ [TimeoutReturn a (ApiFail timeoutError)]" by (simp add: s1)
  from h show w1: "waitResult a (trace ?s1) = Some (ApiFail timeoutError)"
    by (simp add: s1 waitResult_append)
  show gone: "map_of (pendingCallApis ?s1) (sn item) = None"
    by (simp add: s1 delete_conv')
  then show "recvApiReturn (TdRes svc' (sn item) body pinfo) ?s1 = ?s1"
    and "returned (trace (recvApiReturn (TdErr (sn item) e pinfo) ?s1)) = returned (trace ?s1)"
    by (simp_all add: recvApiReturn_def returnToPending_def emit_def)
  have i1: "itemAt ?s1 a = Some (item\<lparr>timer := None\<rparr>)"
    using al by (simp add: s1 itemAt_def)
  from i1 h w1 show d1: "doCallApiFinish a OpSucc ?s1 = Done (ApiFail timeoutError)"
    by (simp add: doCallApiFinish_def doCallApiSent_def doCallApiReturned_def)
  let ?s2 = "emit (FlowExec PreCallApiReturnFlow) ?s1"
  have g: "callApiGotReturn a (ApiFail timeoutError) ?s1 = (Await, ?s2)"
    using i1 h by (simp add: callApiGotReturn_def)
  have i2: "itemAt ?s2 a = Some (item\<lparr>timer := None\<rparr>)"
    using i1 by (simp add: itemAt_def emit_def split: if_splits)
  have f: "callApiFinish a OpSucc flw' ?s1 = callApiEnd a (flw' (ApiFail timeoutError)) ?s2"
    for flw'
    by (simp add: callApiFinish_def d1 g)
  have o1: "options ?s1 = options s"
    by (simp add: s1)
  have p2: "pendingCallApis ?s2 = pendingCallApis ?s1"
    by (simp add: emit_def)
  have ab: "abort (sn item) ?s2 = ?s2"
    using gone by (simp add: abort_def p2)
  from i2 h show "callApiFinish a OpSucc Some ?s1
          = (Done (ApiFail timeoutError),
             deletePending (sn item)
               (logIf (logApi (options s)) LError ''[callApi] [Err]'' ?s2))"
    unfolding f by (simp add: callApiEnd_def Let_def timeoutError_def logIf_def o1)
  from i2 h show "fst (callApiFinish a OpSucc flw ?s1)
          = (case flw (ApiFail timeoutError) of None \<Rightarrow> Aborted | Some ret \<Rightarrow> Done ret)"
    unfolding f by (simp add: callApiEnd_def Let_def split: option.splits)
  have del: "map_of (pendingCallApis (deletePending (sn item) x)) (sn item) = None" for x
    by (simp add: deletePending_def delete_conv')
  from i2 h show "map_of (pendingCallApis (snd (callApiFinish a OpSucc flw ?s1))) (sn item) = None"
    unfolding f using gone by (simp add: callApiEnd_def Let_def ab p2 del split: option.splits)
next
  show "effectiveTimeout None s = callApiTimeout (options s)"
    and "effectiveTimeout (Some (opt\<lparr>optTimeout := None\<rparr>)) s = callApiTimeout (options s)"
    and "effectiveTimeout (Some (opt\<lparr>optTimeout := Some t\<rparr>)) s = t"
    by (simp_all add: effectiveTimeout_def)
  show "itemAt (snd (doCallApi env svc r a opts s)) a
          = Some (item\<lparr>onReturn := True,
                       timer := (if effectiveTimeout opts s = 0 then None
                                 else Some (effectiveTimeout opts s))\<rparr>)"
    if "itemAt s a = Some item"
    using that by (rule doCallApi_arms_timer)
  show "waitTimerFire a s = s" if "itemAt s a = Some item \<and> timer item = None"
    using that by (simp add: waitTimerFire_def)
  show "timeoutError = TsrpcError ''Request Timeout'' NetworkError (Some ''TIMEOUT'')"
    by (simp add: timeoutError_def)
qed

theorem call_timeout_when_sent_witness:
  "waitResult 0 (trace (run exampleCodec exampleWaitingCall exampleClient)) = None
   \<and> callApiFinish 0 OpSucc Some (run exampleCodec exampleWaitingCall exampleClient)
       = (Await, run exampleCodec exampleWaitingCall exampleClient)
   \<and> trace (waitTimerFire 0 (run exampleCodec exampleWaitingCall exampleClient))
       = trace (run exampleCodec exampleWaitingCall exampleClient)
         @ [TimeoutReturn 0
              (ApiFail (TsrpcError ''Request Timeout'' NetworkError (Some ''TIMEOUT'')))]
   \<and> map_of (pendingCallApis
                (waitTimerFire 0 (run exampleCodec exampleWaitingCall exampleClient))) 1 = None
   \<and> recvApiReturn (TdRes None 1 ''late'' None)
         (waitTimerFire 0 (run exampleCodec exampleWaitingCall exampleClient))
       = waitTimerFire 0 (run exampleCodec exampleWaitingCall exampleClient)
   \<and> fst (callApiFinish 0 OpSucc Some
             (waitTimerFire 0 (run exampleCodec exampleWaitingCall exampleClient)))
       = Done (ApiFail (TsrpcError ''Request Timeout'' NetworkError (Some ''TIMEOUT'')))
   \<and> timer (heap (snd (doCallApi exampleCodec ''Echo'' ''x'' 0
                          (Some \<lparr>optTimeout = Some 0, optAbortKey = None,
                                  optAbortSignal = False, optDataType = None\<rparr>)
                          (run exampleCodec exampleUnsentCall exampleClient))) ! 0) = None"
proof -
  let ?w = "run exampleCodec exampleWaitingCall exampleClient"
  let ?u = "run exampleCodec exampleUnsentCall exampleClient"
  let ?o = "Some \<lparr>optTimeout = Some 0, optAbortKey = None, optAbortSignal = False,
                  optDataType = None\<rparr>"
  have hw: "itemAt ?w 0 = Some (heap ?w ! 0) \<and> timer (heap ?w ! 0) \<noteq> None
            \<and> \<not> isAborted (heap ?w ! 0) \<and> waitResult 0 (trace ?w) = None"
    and sw: "sn (heap ?w ! 0) = 1"
    by (simp_all add: eval_defs)
  have hu: "itemAt ?u 0 = Some (heap ?u ! 0)" and eu: "effectiveTimeout ?o ?u = 0"
    by (simp_all add: eval_defs)
  note t1 = call_timeout_when_sent[where s = ?w and a = 0 and item = "heap ?w ! 0"
                                     and svc' = None and body = "''late''" and pinfo = None
                                     and flw = Some]
  note t2 = call_timeout_when_sent[where s = ?u and a = 0 and item = "heap ?u ! 0"
                                     and env = exampleCodec and svc = "''Echo''" and r = "''x''"
                                     and opts = ?o]
  from t2 hu eu
  have "itemAt (snd (doCallApi exampleCodec ''Echo'' ''x'' 0 ?o ?u)) 0
          = Some ((heap ?u ! 0)\<lparr>onReturn := True, timer := None\<rparr>)"
    by simp
  then have a: "timer (heap (snd (doCallApi exampleCodec ''Echo'' ''x'' 0 ?o ?u)) ! 0) = None"
    by (auto simp: itemAt_def split: if_splits)
  from t1 hw have "callApiFinish 0 OpSucc Some ?w = (Await, ?w)
        \<and> trace (waitTimerFire 0 ?w) = trace ?w @ [TimeoutReturn 0 (ApiFail timeoutError)]
        \<and> timeoutError = TsrpcError ''Request Timeout'' NetworkError (Some ''TIMEOUT'')
        \<and> map_of (pendingCallApis (waitTimerFire 0 ?w)) (sn (heap ?w ! 0)) = None
        \<and> recvApiReturn (TdRes None (sn (heap ?w ! 0)) ''late'' None) (waitTimerFire 0 ?w)
            = waitTimerFire 0 ?w
        \<and> fst (callApiFinish 0 OpSucc Some (waitTimerFire 0 ?w))
            = (case Some (ApiFail timeoutError) of None \<Rightarrow> Aborted | Some ret \<Rightarrow> Done ret)"
    by blast
  with sw a hw show ?thesis by simp
qed

subsection \<open>Where the transport is handed data\<close>

lemma sent_append [simp]: "sent (xs @ ys) = sent xs @ sent ys"
  by (induction xs rule: sent.induct) auto

lemma sent_prims [simp]:
  "sent [e] = [] \<Longrightarrow> sent (trace (emit e s)) = sent (trace s)"
  "sent (trace (logIf b lvl tag s)) = sent (trace s)"
  "trace (setItem a item s) = trace s"
  "trace (deletePending k s) = trace s"
  by (simp_all add: prim_defs)

lemma sent_invokeOnReturn [simp]: "sent (trace (invokeOnReturn ret a s)) = sent (trace s)"
  by (simp add: invokeOnReturn_def split: option.splits)

lemma sent_forEachKey:
  assumes "\<And>a s. sent (trace (f a s)) = sent (trace s)"
  shows "sent (trace (forEachKey f ks s)) = sent (trace s)"
  by (rule forEachKey_preserves[where P = "\<lambda>s'. sent (trace s') = sent (trace s)"])
     (simp_all add: assms)

lemma sent_abort [simp]: "sent (trace (abort k s)) = sent (trace s)"
  by (simp add: abort_def Let_def split: option.splits)

lemma sent_aborts [simp]:
  "sent (trace (abortByKey key s)) = sent (trace s)"
  "sent (trace (abortAll s)) = sent (trace s)"
  by (simp_all add: abortByKey_def abortAll_def forEachPending_def sent_forEachKey
               split: option.splits)

lemma sent_wait [simp]:
  "trace (waitApiReturn a timeout s) = trace s"
  "sent (trace (waitTimerFire a s)) = sent (trace s)"
  by (simp_all add: waitApiReturn_def waitTimerFire_def split: option.splits)

lemma sent_recvApiReturn [simp]: "sent (trace (recvApiReturn td s)) = sent (trace s)"
  by (cases td) (simp_all add: recvApiReturn_def returnToPending_def split: option.splits)

lemma sent_sendBox [simp]: "sent (trace (snd (sendBox env box dt td s))) = sent (trace s)"
  by (simp add: sendBox_def Let_def split: sum.splits)

lemma sent_sendTransportData [simp]:
  "sent (trace (snd (sendTransportData env td opts s))) = sent (trace s)"
  by (simp add: sendTransportData_def Let_def split: sum.splits)

lemma sent_sendBoxEnd [simp]: "sent (trace (snd (sendBoxEnd opSend s))) = sent (trace s)"
  by (simp add: sendBoxEnd_def)

lemma sent_heartbeat [simp]:
  "trace (resetHeartbeatTimeout s) = trace s"
  "trace (stopHeartbeat s) = trace s"
  "sent (trace (sendHeartbeat env now s)) = sent (trace s)"
  "sent (trace (recvHeartbeat env now n isReply s)) = sent (trace s)"
  "sent (trace (startHeartbeat env now s)) = sent (trace s)"
  "sent (trace (setStatus env now newStatus s)) = sent (trace s)"
  "sent (trace (sendTimerFire env now s)) = sent (trace s)"
  by (simp_all add: heartbeat_defs Let_def split: option.splits prod.splits)

lemma sent_disconnect [simp]:
  "sent (trace (snd (disconnect isManual reason s))) = sent (trace s)"
  "sent (trace (snd (disconnectFinish isManual reason winner s))) = sent (trace s)"
  "trace (disconnectClear s) = trace s"
  "sent (trace (recvTimeoutFire s)) = sent (trace s)"
  by (simp_all add: disconnect_def disconnectFinish_def disconnectClear_def recvTimeoutFire_def
                    forEachPending_def sent_forEachKey Let_def
               split: option.splits OpResultVoid.splits)

lemma sent_callApi [simp]:
  "sent (trace (callApi name r opts s)) = sent (trace s)"
  "sent (trace (snd (doCallApi env svc r a opts s))) = sent (trace s)"
  "sent (trace (snd (callApiGotReturn a ret s))) = sent (trace s)"
  by (simp_all add: callApi_def doCallApi_def callApiGotReturn_def Let_def case_prod_unfold
               split: option.splits)

lemma sent_callApi_resumed [simp]:
  "sent (trace (snd (callApiPreCalled env a preCall opts s))) = sent (trace s)"
  "sent (trace (snd (callApiEnd a preReturn s))) = sent (trace s)"
  by (simp_all add: callApiPreCalled_def callApiEnd_def Let_def
               split: option.splits ApiReturn.splits TsrpcError.splits)

lemma sent_recv [simp]:
  "sent (trace (recvMsg svc body s)) = sent (trace s)"
  "sent (trace (recvMsgResume pre svc body s)) = sent (trace s)"
  "sent (trace (snd (recvData raw s))) = sent (trace s)"
  by (simp_all add: recvMsg_def recvMsgResume_def recvData_def)

lemma sent_recvTransportData [simp]:
  "sent (trace (recvTransportData env now td s)) = sent (trace s)"
  by (cases td) (simp_all add: recvTransportData_def Let_def split: option.splits)

lemma sent_recvBox [simp]: "sent (trace (snd (recvBox env now box dt s))) = sent (trace s)"
  by (simp add: recvBox_def Let_def split: sum.splits prod.splits)

lemma sent_recvDataResume [simp]:
  "sent (trace (snd (recvDataResume env now pre s))) = sent (trace s)"
  by (simp add: recvDataResume_def Let_def split: sum.splits prod.splits option.splits)

lemma sent_sendBoxResume:
  "sent (trace (snd (sendBoxResume env pre td s)))
     = (case pre of
          None \<Rightarrow> sent (trace s)
        | Some raw \<Rightarrow> if status s = Connected then sent (trace s) @ [(raw, td)]
                      else sent (trace s))"
  by (simp add: sendBoxResume_def emit_def logIf_def split: option.splits)

lemma sent_step:
  "sent (trace (step env act s))
     = (case act of
          ActSendBoxResume (Some raw) td \<Rightarrow>
            if status s = Connected then sent (trace s) @ [(raw, td)] else sent (trace s)
        | _ \<Rightarrow> sent (trace s))"
  by (cases act) (simp_all add: sent_sendBoxResume split: option.splits)


text \<open>
  C9: \<^verbatim>\<open>_sendBox\<close> tests the status again when the \<^verbatim>\<open>preSendDataFlow\<close> has returned: if
  the status is not \<^verbatim>\<open>Connected\<close> then, it returns the not-connected error and changes
  nothing, in particular when the send started on a connected connection and
  \<^verbatim>\<open>_disconnect\<close> ran while the flow was awaited. And no segment that starts while the
  status is not \<^verbatim>\<open>Connected\<close> calls the transport's \<^verbatim>\<open>_sendData\<close>.
\<close>

theorem sendData_only_while_connected:
  "(status s \<noteq> Connected \<longrightarrow>
      sendBoxResume env (Some raw) transportData s = (Done (OpFail (errConnNotConnected env)), s))
   \<and> (status s = Connected \<and> \<not> disconnecting s \<longrightarrow>
        (let s1 = snd (sendTransportData env transportData opts s);
             s2 = snd (disconnect isManual reason s1)
         in sendBoxResume env (Some raw) transportData s2
              = (Done (OpFail (errConnNotConnected env)), s2)))
   \<and> (status s \<noteq> Connected \<longrightarrow> sent (trace (step env act s)) = sent (trace s))"
proof -
  have a: "sendBoxResume env (Some raw) transportData s' = (Done (OpFail (errConnNotConnected env)), s')"
    if "status s' \<noteq> Connected" for s'
    using that by (simp add: sendBoxResume_def)
  have b: "status (snd (disconnect isManual reason (snd (sendTransportData env transportData opts s))))
             = Disconnecting"
    if "status s = Connected" "\<not> disconnecting s"
    using that by (intro disconnect_proceeds_status) simp_all
  have c: "sent (trace (step env act s)) = sent (trace s)" if "status s \<noteq> Connected"
    using that by (simp add: sent_step split: Action.splits option.splits)
  show ?thesis
    using a b c by (simp add: Let_def)
qed

theorem sendData_only_while_connected_witness:
  "sendBoxResume exampleCodec (Some (RawText ''body'')) (TdMsg ''Chat'' ''hi'') exampleClient
     = (Done (OpFail ''The connection is not connected''), exampleClient)
   \<and> fst (sendBoxResume exampleCodec (Some (RawText ''body'')) (TdMsg ''Chat'' ''hi'')
            (snd (disconnect True None
                    (snd (sendTransportData exampleCodec (TdMsg ''Chat'' ''hi'') None
                            connectedClient)))))
       = Done (OpFail ''The connection is not connected'')
   \<and> sent (trace (step exampleCodec
                     (ActSendBoxResume (Some (RawText ''body'')) (TdMsg ''Chat'' ''hi''))
                     exampleClient)) = []"
proof -
  have h1: "status exampleClient \<noteq> Connected"
    by (simp add: exampleClient_status)
  have h2: "status connectedClient = Connected \<and> \<not> disconnecting connectedClient"
    by (simp add: connectedClient_status)
  have e: "errConnNotConnected exampleCodec = ''The connection is not connected''"
    by (simp add: exampleCodec_def)
  have t0: "sent (trace exampleClient) = []"
    by (simp add: example_defs)
  note t1 = sendData_only_while_connected
    [where s = exampleClient and env = exampleCodec and raw = "RawText ''body''"
       and transportData = "TdMsg ''Chat'' ''hi''"
       and act = "ActSendBoxResume (Some (RawText ''body'')) (TdMsg ''Chat'' ''hi'')"]
  note t2 = sendData_only_while_connected
    [where s = connectedClient and env = exampleCodec and raw = "RawText ''body''"
       and transportData = "TdMsg ''Chat'' ''hi''" and opts = None and isManual = True
       and reason = None]
  from t1 h1 e t0
  have a: "sendBoxResume exampleCodec (Some (RawText ''body'')) (TdMsg ''Chat'' ''hi'') exampleClient
             = (Done (OpFail ''The connection is not connected''), exampleClient)"
    and c: "sent (trace (step exampleCodec
                     (ActSendBoxResume (Some (RawText ''body'')) (TdMsg ''Chat'' ''hi''))
                     exampleClient)) = []"
    by simp_all
  from t2 h2 e
  have b: "fst (sendBoxResume exampleCodec (Some (RawText ''body'')) (TdMsg ''Chat'' ''hi'')
            (snd (disconnect True None
                    (snd (sendTransportData exampleCodec (TdMsg ''Chat'' ''hi'') None
                            connectedClient)))))
       = Done (OpFail ''The connection is not connected'')"
    by (simp add: Let_def)
  from a b c show ?thesis by simp
qed

subsection \<open>The current revision: the request and its return meet at the same item\<close>

lemma callApi_registers:
  assumes "getNext False (callApiSn s) = (k, c)"
  shows "map_of (pendingCallApis (callApi name r opts s)) k = Some (length (heap s))"
    and "sn (heap (callApi name r opts s) ! length (heap s)) = k"
  using assms by (simp_all add: callApi_def prim_defs update_conv')

lemma doCallApi_encodes_item_sn:
  assumes "itemAt s a = Some item" and "status s = Connected"
  shows "\<exists>dt pinfo. EncodeBody dt (TdReq svc (sn item) r pinfo)
                      \<in> set (trace (snd (doCallApi env svc r a opts s)))"
proof -
  let ?td = "doCallApiTransportData svc r item s"
  have "\<exists>dt. EncodeBody dt ?td \<in> set (trace (snd (sendTransportData env ?td opts s)))"
    using assms(2)
    by (auto simp: sendTransportData_def sendBox_def prim_defs split: sum.splits)
  moreover have "trace (snd (doCallApi env svc r a opts s))
                   = trace (snd (sendTransportData env ?td opts s))"
    using assms(1) by (simp add: doCallApi_def case_prod_unfold Let_def)
  ultimately show ?thesis
    unfolding doCallApiTransportData_def by metis
qed

lemma res_resolves_its_call:
  assumes "pendingInv s" and "map_of (pendingCallApis s) k = Some a" and "onReturn (heap s ! a)"
  shows "trace (recvApiReturn (TdRes svc k body pinfo) s) = trace s @ [OnReturn a (ApiSucc body)]"
    and "k \<noteq> 0 \<Longrightarrow>
         trace (recvApiReturn (TdErr k e pinfo) s) = trace s @ [OnReturn a (ApiFail e)]"
  using assms pendingInv_lookup[OF assms(1,2)]
  by (simp_all add: recvApiReturn_def returnToPending_def invokeOnReturn_linked itemAt_def)

subsection \<open>Receive-only heartbeat: the general fact and the sending mode\<close>

text \<open>
  Whatever the connection, with \<^verbatim>\<open>heartbeatSendInterval = 0\<close> \<^verbatim>\<open>_startHeartbeat\<close> creates no
  heartbeat state, and without that state a heartbeat that arrives changes nothing.
\<close>

lemma receive_only_never_starts:
  assumes "heartbeatSendInterval (options s) = 0" and "heartbeatState s = None"
  shows "startHeartbeat env now s = s"
    and "recvHeartbeat env now' n isReply s = s"
  using assms by (simp_all add: heartbeat_defs)

text \<open>
  With the default interval of 1000 ms the same ping is answered with \<^verbatim>\<open>isReply: true\<close>
  and the receive timeout is armed.
\<close>

lemma sending_mode_answers_ping:
  "trace (recvHeartbeat exampleCodec 5 7 None connectedClient)
     = trace connectedClient
       @ [EncodeBody DataText (TdHeartbeat 7 (Some True)),
          EncodeBox DataText \<lparr>boxType = BoxHeartbeat, boxSn = 7, boxProtoInfo = None,
                               boxBody = ''body''\<rparr>,
          FlowExec PreSendDataFlow]"
  "map_option recvTimeout (heartbeatState connectedClient) = Some (Some 5000)"
  by (simp_all add: eval_defs)

end
